theory Spec2Isabelle
  imports Complex_Main "HOL-Library.Word"
begin

unbundle bit_operations_syntax

section \<open>Errors of the platform\<close>

text \<open>
  The exceptions the browser raises in the calls the source makes: a typed-array view over
  a buffer of the wrong size, an audio buffer outside the supported range, a string that
  is not base64 (or not Latin-1), an operation on a closed resource, a member read on
  \<open>null\<close>, a failed IndexedDB request.
\<close>

datatype js_error =
    RangeError
  | NotSupportedError
  | InvalidCharacterError
  | InvalidStateError
  | TypeError
  | DatabaseError

section \<open>Base64 transport: \<open>btoa\<close>, \<open>atob\<close>, \<open>encode\<close>, \<open>decode\<close> (src/App.tsx 11-19, 40-47)\<close>

text \<open>
  A JavaScript binary string is modelled by the list of its code units (\<open>nat\<close>); a
  \<open>Uint8Array\<close> by a list of \<open>8 word\<close>. \<open>btoa\<close> and \<open>atob\<close> are the browser's
  functions: \<open>btoa\<close> raises on a code unit above 255 and otherwise writes RFC 4648
  base64 with padding; \<open>atob\<close> is the forgiving decoder of the HTML standard (ASCII
  whitespace removed, one or two trailing \<open>=\<close> dropped when the length is a multiple of 4,
  failure on a remainder of 1 or on any character outside the alphabet, left-over bits
  discarded).
\<close>

definition b64chars :: string where
  "b64chars = ''ABCDEFGHIJKLMNOPQRSTUVWXYZabcdefghijklmnopqrstuvwxyz0123456789+/''"

definition b64char :: "nat \<Rightarrow> char" where
  "b64char n = b64chars ! n"

fun index_of :: "'a list \<Rightarrow> 'a \<Rightarrow> nat option" where
  "index_of [] x = None"
| "index_of (y # ys) x = (if x = y then Some 0 else map_option Suc (index_of ys x))"

definition b64index :: "char \<Rightarrow> nat option" where
  "b64index c = index_of b64chars c"

fun b64_groups :: "nat list \<Rightarrow> string" where
  "b64_groups (a # b # c # rest) =
     b64char (a div 4) # b64char ((a mod 4) * 16 + b div 16) #
     b64char ((b mod 16) * 4 + c div 64) # b64char (c mod 64) # b64_groups rest"
| "b64_groups [a, b] =
     [b64char (a div 4), b64char ((a mod 4) * 16 + b div 16), b64char ((b mod 16) * 4), CHR ''='']"
| "b64_groups [a] = [b64char (a div 4), b64char ((a mod 4) * 16), CHR ''='', CHR ''='']"
| "b64_groups [] = []"

definition btoa :: "nat list \<Rightarrow> js_error + string" where
  "btoa s = (if list_ex (\<lambda>c. 255 < c) s then Inl InvalidCharacterError else Inr (b64_groups s))"

definition ascii_whitespace :: "char \<Rightarrow> bool" where
  "ascii_whitespace c = (c \<in> set [CHR 0x09, CHR 0x0A, CHR 0x0C, CHR 0x0D, CHR 0x20])"

definition strip_padding :: "string \<Rightarrow> string" where
  "strip_padding d =
     (if length d mod 4 = 0 \<and> d \<noteq> [] \<and> last d = CHR ''=''
      then (let d1 = butlast d in if d1 \<noteq> [] \<and> last d1 = CHR ''='' then butlast d1 else d1)
      else d)"

fun sextets_bytes :: "nat list \<Rightarrow> nat list" where
  "sextets_bytes (p # q # r # s # rest) =
     (p * 4 + q div 16) # ((q mod 16) * 16 + r div 4) # ((r mod 4) * 64 + s) # sextets_bytes rest"
| "sextets_bytes [p, q, r] = [p * 4 + q div 16, (q mod 16) * 16 + r div 4]"
| "sextets_bytes [p, q] = [p * 4 + q div 16]"
| "sextets_bytes [p] = []"
| "sextets_bytes [] = []"

definition atob :: "string \<Rightarrow> js_error + nat list" where
  "atob s =
     (let d = strip_padding (filter (\<lambda>c. \<not> ascii_whitespace c) s) in
      if length d mod 4 = 1 then Inl InvalidCharacterError
      else (case those (map b64index d) of
              None \<Rightarrow> Inl InvalidCharacterError
            | Some v \<Rightarrow> Inr (sextets_bytes v)))"

text \<open>
  \<open>decode\<close>: \<open>atob\<close>, then each code unit stored into a \<open>Uint8Array\<close> of the string's
  length. \<open>encode\<close>: each byte appended as one code unit, then \<open>btoa\<close>.
\<close>

definition decode :: "string \<Rightarrow> js_error + 8 word list" where
  "decode base64 =
     (case atob base64 of
        Inl e \<Rightarrow> Inl e
      | Inr binaryString \<Rightarrow> Inr (map of_nat binaryString))"

definition encode :: "8 word list \<Rightarrow> js_error + string" where
  "encode bytes = btoa (map unat bytes)"

section \<open>PCM conversion: \<open>createBlob\<close>, \<open>decodeAudioData\<close> (src/App.tsx 21-38, 49-59)\<close>

text \<open>
  A \<open>Float32Array\<close> sample is modelled by the real number it denotes (a finite value:
  the microphone delivers no NaN or infinity). The product \<open>data[i] * 32768\<close> and the
  quotient \<open>dataInt16[k] / 32768.0\<close> are by a power of two, so binary floating point
  computes them without rounding and real arithmetic gives the same numbers.

  Storing a number into an \<open>Int16Array\<close> element applies ECMAScript's ToInt16: the
  fraction is dropped (towards zero) and the integer is reduced modulo \<open>2 ^ 16\<close> into the
  signed range. The views \<open>new Uint8Array(int16.buffer)\<close> and
  \<open>new Int16Array(data.buffer)\<close> reinterpret the same memory in the byte order of the
  platform, little-endian here.
\<close>

definition trunc :: "real \<Rightarrow> int" where
  "trunc x = (if x < 0 then - \<lfloor>- x\<rfloor> else \<lfloor>x\<rfloor>)"

definition ToInt16 :: "real \<Rightarrow> 16 word" where
  "ToInt16 x = word_of_int (trunc x)"

definition int16_bytes :: "16 word \<Rightarrow> 8 word list" where
  "int16_bytes w = [ucast w, ucast (drop_bit 8 w)]"

definition int16_of_bytes :: "8 word \<Rightarrow> 8 word \<Rightarrow> 16 word" where
  "int16_of_bytes lo hi = push_bit 8 (ucast hi) OR ucast lo"

record blob =
  blob_data :: string
  blob_mimeType :: string

definition int16_buffer :: "16 word list \<Rightarrow> 8 word list" where
  "int16_buffer int16 = concat (map int16_bytes int16)"

definition createBlob :: "real list \<Rightarrow> js_error + blob" where
  "createBlob samples =
     (let int16 = map (\<lambda>s. ToInt16 (s * 32768)) samples in
      case encode (int16_buffer int16) of
        Inl e \<Rightarrow> Inl e
      | Inr b64 \<Rightarrow> Inr \<lparr>blob_data = b64, blob_mimeType = ''audio/pcm;rate=16000''\<rparr>)"

text \<open>
  \<open>new Int16Array(buffer)\<close> raises RangeError when the byte length of the buffer is odd.
\<close>

fun int16_pairs :: "8 word list \<Rightarrow> 16 word list" where
  "int16_pairs (lo # hi # rest) = int16_of_bytes lo hi # int16_pairs rest"
| "int16_pairs [lo] = []"
| "int16_pairs [] = []"

definition Int16Array :: "8 word list \<Rightarrow> js_error + 16 word list" where
  "Int16Array buf = (if odd (length buf) then Inl RangeError else Inr (int16_pairs buf))"

text \<open>
  \<open>AudioContext.createBuffer\<close> raises NotSupportedError outside the nominal ranges. The
  ranges below are the ones every implementation has to support (1 to 32 channels, at least
  one frame, 8000 to 96000 Hz); the call of the source (one channel, 24000 Hz) lies inside.
  The new buffer is silent.
\<close>

record audio_buffer =
  numberOfChannels :: nat
  frames :: nat
  sampleRate :: nat
  channelData :: "real list list"

definition duration :: "audio_buffer \<Rightarrow> real" where
  "duration b = real (frames b) / real (sampleRate b)"

definition createBuffer :: "nat \<Rightarrow> nat \<Rightarrow> nat \<Rightarrow> js_error + audio_buffer" where
  "createBuffer numChannels n rate =
     (if numChannels = 0 \<or> 32 < numChannels \<or> n = 0 \<or> rate < 8000 \<or> 96000 < rate
      then Inl NotSupportedError
      else Inr \<lparr>numberOfChannels = numChannels, frames = n, sampleRate = rate,
                channelData = replicate numChannels (replicate n 0)\<rparr>)"

text \<open>
  The inner loop runs \<open>i\<close> over the integers below \<open>frameCount\<close>, which is a quotient of
  numbers and need not be whole, while the buffer has \<open>\<lfloor>frameCount\<rfloor>\<close> frames: a store
  past the end of a typed array is ignored, which is what list update does.
\<close>

definition fill_channel :: "16 word list \<Rightarrow> nat \<Rightarrow> nat \<Rightarrow> real \<Rightarrow> real list \<Rightarrow> real list" where
  "fill_channel dataInt16 numChannels channel frameCount cd =
     fold (\<lambda>i cd. cd[i := real_of_int (sint (dataInt16 ! (i * numChannels + channel))) / 32768])
       [0..<nat \<lceil>frameCount\<rceil>] cd"

definition decodeAudioData :: "8 word list \<Rightarrow> nat \<Rightarrow> nat \<Rightarrow> js_error + audio_buffer" where
  "decodeAudioData data rate numChannels =
     (case Int16Array data of
        Inl e \<Rightarrow> Inl e
      | Inr dataInt16 \<Rightarrow>
          (let frameCount = real (length dataInt16) / real numChannels in
           case createBuffer numChannels (nat \<lfloor>frameCount\<rfloor>) rate of
             Inl e \<Rightarrow> Inl e
           | Inr buffer \<Rightarrow>
               Inr (buffer\<lparr>channelData :=
                  fold (\<lambda>channel chans.
                          chans[channel := fill_channel dataInt16 numChannels channel frameCount
                                             (chans ! channel)])
                    [0..<numChannels] (channelData buffer)\<rparr>)))"

section \<open>The live session of \<open>App\<close> (src/App.tsx 96-118, 344-508)\<close>

subsection \<open>State\<close>

text \<open>
  The component keeps its conversation log and flags in React state and its resources in
  refs. A ref that may be \<open>null\<close> is an \<open>option\<close>. Calls on browser objects that
  return nothing are recorded, in order, in \<open>trace\<close>; exceptions that leave a handler and
  rejected promises nobody handles are recorded in \<open>failures\<close>.

  \<open>onmessage\<close> is an async function. Up to its \<open>await\<close> it runs at once; there it is
  suspended, and what is left of it runs later, after whatever other handlers the event
  loop has entered in between. The handlers that wait are kept in \<open>suspended\<close>, first in
  first out. The two state updaters that \<open>onmessage\<close> passes to \<open>setMessages\<close> read an
  accumulator ref when React runs them, not when they are queued: they are kept in
  \<open>queued\<close> until React renders.
\<close>

datatype role = User | Model | Error

record message =
  role :: role
  content :: string
  image_url :: "string option"

datatype ctx_state = Suspended | Running | Closed

datatype ctx = InputContext | OutputContext

datatype audio_node = ScriptProcessorNode | MediaStreamAudioSourceNode

datatype live_session = LiveSession

type_synonym media_stream = "nat list" \<comment> \<open>the tracks of the stream\<close>

text \<open>
  An incoming \<open>LiveServerMessage\<close>: the text of the input and of the output transcription
  when the message has one, the base64 payload at
  \<open>serverContent.modelTurn.parts[0].inlineData.data\<close> when that chain is there, and the
  two flags.
\<close>

record server_message =
  inputTranscription :: "string option"
  outputTranscription :: "string option"
  inlineData :: "string option"
  turnComplete :: bool
  interrupted :: bool

text \<open>
  A queued updater: the one of the input branch, and the one of the output branch with the
  fragment \<open>text\<close> it closed over. A handler suspended at the \<open>await\<close>: the promise of
  \<open>decodeAudioData\<close>, settled already, and the message, whose flags are read after the
  \<open>await\<close>; \<open>clock_read\<close> notes what \<open>currentTime\<close> was when the handler clamped the
  cursor.
\<close>

datatype updater = GrowUser | GrowModel string

record continuation =
  clock_read :: real
  decoded :: "js_error + audio_buffer"
  waiting :: server_message

text \<open>
  An \<open>AudioBufferSourceNode\<close> that has been started: the buffer it plays and the time
  given to \<open>start\<close>. \<open>source_id\<close> is the identity of the object.
\<close>

record playback_source =
  source_id :: nat
  source_buffer :: audio_buffer
  startAt :: real

datatype effect =
    CloseSession
  | StopTrack nat
  | Disconnect audio_node
  | CloseContext ctx
  | StartSource nat real
  | StopSource nat
  | SendRealtimeInput blob
  | SetTimestamp string

record app =
  messages :: "message list"
  isLoading :: bool
  isListening :: bool
  isOffline :: bool
  liveSessionRef :: "live_session option"
  inputAudioContextRef :: "ctx_state option"
  outputAudioContextRef :: "ctx_state option"
  scriptProcessorRef :: "audio_node option"
  mediaStreamSourceRef :: "audio_node option"
  mediaStreamRef :: "media_stream option"
  outputSourcesRef :: "playback_source list"
  nextStartTimeRef :: real
  currentInputTranscriptionRef :: string
  currentOutputTranscriptionRef :: string
  closure_isListening :: bool
  nextSourceId :: nat
  queued :: "updater list"
  suspended :: "continuation list"
  trace :: "effect list"
  failures :: "js_error list"

text \<open>
  \<open>outputSourcesRef\<close> is a JavaScript \<open>Set\<close> of objects: a list in insertion order,
  every source a new object. \<open>closure_isListening\<close> is the value of the state variable
  \<open>isListening\<close> that the callbacks of the running \<open>startListening\<close> call closed over.
\<close>

definition say :: "role \<Rightarrow> string \<Rightarrow> message" where
  "say r c = \<lparr>role = r, content = c, image_url = None\<rparr>"

subsection \<open>\<open>stopListening\<close> (src/App.tsx 344-371)\<close>

text \<open>
  \<open>AudioContext.close()\<close> returns a promise that is rejected with InvalidStateError when
  the context is closed already; otherwise the state of the context is \<open>closed\<close> from
  then on. \<open>stop()\<close> on a source raises only before \<open>start()\<close>, and every member of the
  live set has been started.
\<close>

definition AudioContext_close :: "ctx_state \<Rightarrow> js_error + ctx_state" where
  "AudioContext_close st = (if st = Closed then Inl InvalidStateError else Inr Closed)"

definition release_session :: "app \<Rightarrow> app" where
  "release_session s =
     (case liveSessionRef s of
        Some session \<Rightarrow> s\<lparr>trace := trace s @ [CloseSession], liveSessionRef := None\<rparr>
      | None \<Rightarrow> s)"

definition release_stream :: "app \<Rightarrow> app" where
  "release_stream s =
     (case mediaStreamRef s of
        Some tracks \<Rightarrow> s\<lparr>trace := trace s @ map StopTrack tracks, mediaStreamRef := None\<rparr>
      | None \<Rightarrow> s)"

definition release_processor :: "app \<Rightarrow> app" where
  "release_processor s =
     (case scriptProcessorRef s of
        Some n \<Rightarrow> s\<lparr>trace := trace s @ [Disconnect n], scriptProcessorRef := None\<rparr>
      | None \<Rightarrow> s)"

definition release_stream_source :: "app \<Rightarrow> app" where
  "release_stream_source s =
     (case mediaStreamSourceRef s of
        Some n \<Rightarrow> s\<lparr>trace := trace s @ [Disconnect n], mediaStreamSourceRef := None\<rparr>
      | None \<Rightarrow> s)"

definition close_input_context :: "app \<Rightarrow> app" where
  "close_input_context s =
     (case inputAudioContextRef s of
        Some st \<Rightarrow>
          if st \<noteq> Closed
          then (case AudioContext_close st of
                  Inl e \<Rightarrow> s\<lparr>failures := failures s @ [e]\<rparr>
                | Inr st' \<Rightarrow> s\<lparr>trace := trace s @ [CloseContext InputContext],
                              inputAudioContextRef := Some st'\<rparr>)
          else s
      | None \<Rightarrow> s)"

definition close_output_context :: "app \<Rightarrow> app" where
  "close_output_context s =
     (case outputAudioContextRef s of
        Some st \<Rightarrow>
          if st \<noteq> Closed
          then (case AudioContext_close st of
                  Inl e \<Rightarrow> s\<lparr>failures := failures s @ [e]\<rparr>
                | Inr st' \<Rightarrow> s\<lparr>trace := trace s @ [CloseContext OutputContext],
                              outputAudioContextRef := Some st'\<rparr>)
          else s
      | None \<Rightarrow> s)"

definition stop_sources :: "app \<Rightarrow> app" where
  "stop_sources s =
     s\<lparr>trace := trace s @ map (\<lambda>source. StopSource (source_id source)) (outputSourcesRef s),
       outputSourcesRef := []\<rparr>"

definition stopListening :: "app \<Rightarrow> app" where
  "stopListening s =
     (let s1 = release_session s;
          s2 = release_stream s1;
          s3 = release_processor s2;
          s4 = release_stream_source s3;
          s5 = close_input_context s4;
          s6 = close_output_context s5;
          s7 = stop_sources s6
      in s7\<lparr>isListening := False, isLoading := False\<rparr>)"

subsection \<open>The handlers of the session (src/App.tsx 401-482)\<close>

text \<open>\<open>Array.prototype.lastIndexOf\<close>, \<open>String.prototype.slice\<close> and \<open>String.prototype.includes\<close>.\<close>

fun lastIndexOf :: "'a list \<Rightarrow> 'a \<Rightarrow> int" where
  "lastIndexOf [] x = - 1"
| "lastIndexOf (y # ys) x =
     (let r = lastIndexOf ys x in if r = - 1 then (if y = x then 0 else - 1) else r + 1)"

definition slice :: "string \<Rightarrow> int \<Rightarrow> int \<Rightarrow> string" where
  "slice str start fin =
     (let len = int (length str);
          first = (if start < 0 then max (len + start) 0 else min start len);
          final = (if fin < 0 then max (len + fin) 0 else min fin len)
      in take (nat (final - first)) (drop (nat first) str))"

fun str_includes :: "string \<Rightarrow> string \<Rightarrow> bool" where
  "str_includes [] t = (t = [])"
| "str_includes (c # cs) t = (take (length t) (c # cs) = t \<or> str_includes cs t)"

text \<open>
  The two updaters (lines 415-425 and 431-439), with the accumulator they find in the ref
  when they run, and React running the queue.
\<close>

definition growUser :: "string \<Rightarrow> message list \<Rightarrow> message list" where
  "growUser acc prev =
     (let lastMsgIndex = lastIndexOf (map role prev) User;
          lastModelMsgIndex = lastIndexOf (map role prev) Model
      in if lastMsgIndex > lastModelMsgIndex
         then prev[nat lastMsgIndex := say User acc]
         else prev @ [say User acc])"

definition growModel :: "string \<Rightarrow> string \<Rightarrow> message list \<Rightarrow> message list" where
  "growModel acc text prev =
     (let lastMsgIndex = lastIndexOf (map role prev) Model
      in if lastMsgIndex \<noteq> - 1 \<and>
            str_includes (content (prev ! nat lastMsgIndex)) (slice acc 0 (- int (length text)))
         then prev[nat lastMsgIndex := say Model acc]
         else prev @ [say Model acc])"

fun run_updater :: "app \<Rightarrow> message list \<Rightarrow> updater \<Rightarrow> message list" where
  "run_updater s prev GrowUser = growUser (currentInputTranscriptionRef s) prev"
| "run_updater s prev (GrowModel text) = growModel (currentOutputTranscriptionRef s) text prev"

definition render :: "app \<Rightarrow> app" where
  "render s = s\<lparr>messages := foldl (run_updater s) (messages s) (queued s), queued := []\<rparr>"

definition inputTranscriptionBranch :: "app \<Rightarrow> string \<Rightarrow> app" where
  "inputTranscriptionBranch s text =
     s\<lparr>currentInputTranscriptionRef := currentInputTranscriptionRef s @ text,
       queued := queued s @ [GrowUser]\<rparr>"

definition outputTranscriptionBranch :: "app \<Rightarrow> string \<Rightarrow> app" where
  "outputTranscriptionBranch s text =
     s\<lparr>currentOutputTranscriptionRef := currentOutputTranscriptionRef s @ text,
       queued := queued s @ [GrowModel text]\<rparr>"

definition turnCompleteBranch :: "app \<Rightarrow> app" where
  "turnCompleteBranch s = s\<lparr>currentInputTranscriptionRef := [], currentOutputTranscriptionRef := []\<rparr>"

definition interruptedBranch :: "app \<Rightarrow> app" where
  "interruptedBranch s =
     s\<lparr>trace := trace s @ map (\<lambda>source. StopSource (source_id source)) (outputSourcesRef s),
       outputSourcesRef := [],
       nextStartTimeRef := 0\<rparr>"

text \<open>Lines 458-469, which follow the audio branch.\<close>

definition onmessage_rest :: "app \<Rightarrow> server_message \<Rightarrow> app" where
  "onmessage_rest s m =
     (let s4 = (if turnComplete m then turnCompleteBranch s else s)
      in if interrupted m then interruptedBranch s4 else s4)"

text \<open>
  The audio branch up to the \<open>await\<close> (lines 444-446). Reading \<open>currentTime\<close> of a
  \<open>null\<close> context raises TypeError before the cursor is written. Then the cursor is
  clamped to the clock reading \<open>now\<close>, and \<open>decode\<close> runs, whose exception leaves the
  handler with the clamp done. \<open>decodeAudioData\<close> is an async function without an
  \<open>await\<close> of its own: it runs at once and what it returns or raises settles its promise,
  on which the handler is suspended. The second component is the exception that left the
  handler.
\<close>

definition audioBranch :: "app \<Rightarrow> real \<Rightarrow> string \<Rightarrow> server_message \<Rightarrow> app \<times> js_error option" where
  "audioBranch s now base64Audio m =
     (case outputAudioContextRef s of
        None \<Rightarrow> (s, Some TypeError)
      | Some outputAudioContext \<Rightarrow>
          (let s1 = s\<lparr>nextStartTimeRef := max (nextStartTimeRef s) now\<rparr> in
           case decode base64Audio of
             Inl e \<Rightarrow> (s1, Some e)
           | Inr bytes \<Rightarrow>
               (s1\<lparr>suspended := suspended s1 @
                     [\<lparr>clock_read = now, decoded = decodeAudioData bytes 24000 1, waiting = m\<rparr>]\<rparr>,
                None)))"

text \<open>
  \<open>onmessage\<close> until it returns to the event loop: to its end when the message has no
  payload (an empty string is falsy), to the \<open>await\<close> or to an exception when it has one.
\<close>

definition onmessage :: "app \<Rightarrow> real \<Rightarrow> server_message \<Rightarrow> app" where
  "onmessage s now m =
     (let s1 = (case inputTranscription m of Some text \<Rightarrow> inputTranscriptionBranch s text | None \<Rightarrow> s);
          s2 = (case outputTranscription m of Some text \<Rightarrow> outputTranscriptionBranch s1 text | None \<Rightarrow> s1)
      in case inlineData m of
           Some base64Audio \<Rightarrow>
             if base64Audio \<noteq> []
             then (case audioBranch s2 now base64Audio m of
                     (s3, Some e) \<Rightarrow> s3\<lparr>failures := failures s3 @ [e]\<rparr>
                   | (s3, None) \<Rightarrow> s3)
             else onmessage_rest s2 m
         | None \<Rightarrow> onmessage_rest s2 m)"

text \<open>
  The handler that has waited longest goes on after its \<open>await\<close> (lines 446-469). A
  rejected promise raises there. Otherwise a new source is started at the cursor as it is
  now, the cursor moves on by the duration of the buffer, the source joins the live set,
  and the flags of the message are looked at. \<open>start\<close> raises only on a negative time,
  and the cursor starts at 0 and is only ever clamped to the clock, moved on or put back
  to 0.
\<close>

definition onmessage_resume :: "app \<Rightarrow> app" where
  "onmessage_resume s =
     (case suspended s of
        [] \<Rightarrow> s
      | k # ks \<Rightarrow>
          (let s1 = s\<lparr>suspended := ks\<rparr> in
           case decoded k of
             Inl e \<Rightarrow> s1\<lparr>failures := failures s1 @ [e]\<rparr>
           | Inr audioBuffer \<Rightarrow>
               (let source = \<lparr>source_id = nextSourceId s1, source_buffer = audioBuffer,
                               startAt = nextStartTimeRef s1\<rparr>;
                    s2 = s1\<lparr>nextSourceId := Suc (nextSourceId s1),
                            trace := trace s1 @ [StartSource (source_id source) (startAt source)],
                            nextStartTimeRef := nextStartTimeRef s1 + duration audioBuffer,
                            outputSourcesRef := outputSourcesRef s1 @ [source]\<rparr>
                in onmessage_rest s2 (waiting k))))"

text \<open>The \<open>ended\<close> listener of a source removes that source from the live set.\<close>

definition onended :: "app \<Rightarrow> nat \<Rightarrow> app" where
  "onended s i = s\<lparr>outputSourcesRef := filter (\<lambda>source. source_id source \<noteq> i) (outputSourcesRef s)\<rparr>"

definition onerror :: "app \<Rightarrow> string \<Rightarrow> app" where
  "onerror s e =
     stopListening (s\<lparr>messages := messages s @ [say Error (''LIVE_SESSION_ERROR: '' @ e)]\<rparr>)"

definition onclose :: "app \<Rightarrow> app" where
  "onclose s =
     (if closure_isListening s
      then stopListening (s\<lparr>messages := messages s @ [say Model ''VOICE CHANNEL CLOSED.'']\<rparr>)
      else s)"

definition onopen :: "app \<Rightarrow> app" where
  "onopen s =
     (let s1 = s\<lparr>isLoading := False\<rparr> in
      case inputAudioContextRef s1 of
        None \<Rightarrow> s1\<lparr>failures := failures s1 @ [TypeError]\<rparr>
      | Some Closed \<Rightarrow> s1\<lparr>failures := failures s1 @ [InvalidStateError]\<rparr>
      | Some st \<Rightarrow> s1\<lparr>mediaStreamSourceRef := Some MediaStreamAudioSourceNode,
                        scriptProcessorRef := Some ScriptProcessorNode\<rparr>)"

definition onaudioprocess :: "app \<Rightarrow> real list \<Rightarrow> app" where
  "onaudioprocess s inputData =
     (case createBlob inputData of
        Inl e \<Rightarrow> s\<lparr>failures := failures s @ [e]\<rparr>
      | Inr pcmBlob \<Rightarrow> s\<lparr>trace := trace s @ [SendRealtimeInput pcmBlob]\<rparr>)"

subsection \<open>\<open>startListening\<close> and \<open>toggleListening\<close> (src/App.tsx 373-508)\<close>

text \<open>
  \<open>startListening\<close> is split where it waits: the part before \<open>getUserMedia\<close>, the part
  after the stream has arrived, the \<open>catch\<close> block, and the assignment of the session once
  the connection promise has resolved. The callbacks are made inside this call, so the
  \<open>isListening\<close> they read is the one of the render that made this \<open>startListening\<close>.
\<close>

definition startListening :: "app \<Rightarrow> app" where
  "startListening s =
     (if isOffline s
      then s\<lparr>messages := messages s @ [say Error ''OFFLINE: Voice commands unavailable.'']\<rparr>
      else s\<lparr>closure_isListening := isListening s,
             trace := trace s @ [SetTimestamp ''lastInteraction''],
             isListening := True,
             isLoading := True,
             messages := messages s @ [say Model ''VOICE CHANNEL OPEN. LISTENING...'']\<rparr>)"

definition getUserMedia_resolved :: "app \<Rightarrow> media_stream \<Rightarrow> app" where
  "getUserMedia_resolved s stream =
     s\<lparr>mediaStreamRef := Some stream,
       inputAudioContextRef := Some Running,
       outputAudioContextRef := Some Running\<rparr>"

definition startListening_catch :: "app \<Rightarrow> string \<Rightarrow> app" where
  "startListening_catch s e =
     stopListening (s\<lparr>messages := messages s @ [say Error (''MICROPHONE_ERROR: '' @ e)]\<rparr>)"

definition session_resolved :: "app \<Rightarrow> app" where
  "session_resolved s = s\<lparr>liveSessionRef := Some LiveSession\<rparr>"

definition toggleListening :: "app \<Rightarrow> app" where
  "toggleListening s =
     (if isListening s
      then (let s1 = stopListening s
            in s1\<lparr>messages := messages s1 @ [say Model ''VOICE CHANNEL CLOSED.'']\<rparr>)
      else startListening s)"

text \<open>
  Everything that can happen to the component during a live session. \<open>Resume\<close> lets the
  handler that has waited longest go on after its \<open>await\<close>; that is a microtask, which
  comes before React gets to render. Every other event is a task of its own, and React has
  run the updaters queued so far when the task begins. \<open>run\<close> is the component after the
  events, once React has rendered.
\<close>

datatype event =
    Toggle
  | StreamGranted media_stream
  | StartFailed string
  | Opened
  | SessionResolved
  | AudioProcess "real list"
  | Message real server_message
  | Resume
  | Ended nat
  | RemoteError string
  | RemoteClose

fun step :: "app \<Rightarrow> event \<Rightarrow> app" where
  "step s Toggle = toggleListening (render s)"
| "step s (StreamGranted stream) = getUserMedia_resolved (render s) stream"
| "step s (StartFailed e) = startListening_catch (render s) e"
| "step s Opened = onopen (render s)"
| "step s SessionResolved = session_resolved (render s)"
| "step s (AudioProcess inputData) = onaudioprocess (render s) inputData"
| "step s (Message now m) = onmessage (render s) now m"
| "step s Resume = onmessage_resume s"
| "step s (Ended i) = onended (render s) i"
| "step s (RemoteError e) = onerror (render s) e"
| "step s RemoteClose = onclose (render s)"

definition run :: "app \<Rightarrow> event list \<Rightarrow> app" where
  "run s es = render (foldl step s es)"

definition idle :: app where
  "idle = \<lparr>messages = [], isLoading = False, isListening = False, isOffline = False,
           liveSessionRef = None, inputAudioContextRef = None, outputAudioContextRef = None,
           scriptProcessorRef = None, mediaStreamSourceRef = None, mediaStreamRef = None,
           outputSourcesRef = [], nextStartTimeRef = 0,
           currentInputTranscriptionRef = [], currentOutputTranscriptionRef = [],
           closure_isListening = False, nextSourceId = 0, queued = [], suspended = [],
           trace = [], failures = []\<rparr>"

section \<open>The service worker: \<open>checkInactivityAndNotify\<close> (src/unnamed/part\_001 65-124)\<close>

text \<open>
  The worker sees the notification permission, the object store (a failed request rejects
  the promise) and the wall clock in milliseconds. A stored value is falsy when it is
  missing or zero.
\<close>

datatype permission = Default | Granted | Denied

record worker_env =
  notification_permission :: permission
  store :: "js_error + (string \<rightharpoonup> int)"
  date_now :: int

record notification =
  title :: string
  body :: string
  tag :: string

definition getTimestamp :: "worker_env \<Rightarrow> string \<Rightarrow> js_error + int option" where
  "getTimestamp env key = (case store env of Inl e \<Rightarrow> Inl e | Inr objects \<Rightarrow> Inr (objects key))"

definition falsy :: "int option \<Rightarrow> bool" where
  "falsy v = (case v of None \<Rightarrow> True | Some n \<Rightarrow> n = 0)"

definition INACTIVITY_THRESHOLD :: int where
  "INACTIVITY_THRESHOLD = 24 * 60 * 60 * 1000"

definition reminder :: notification where
  "reminder = \<lparr>title = ''ISAAC'', body = ''It's been a while. Let's talk.'', tag = ''isaac-reminder''\<rparr>"

definition checkInactivityAndNotify :: "worker_env \<Rightarrow> js_error + notification list" where
  "checkInactivityAndNotify env =
     (if notification_permission env \<noteq> Granted then Inr []
      else case getTimestamp env ''lastInteraction'' of
        Inl e \<Rightarrow> Inl e
      | Inr lastInteraction \<Rightarrow>
          if falsy lastInteraction then Inr []
          else if date_now env - the lastInteraction > INACTIVITY_THRESHOLD then Inr [reminder]
          else Inr [])"

definition periodicsync :: "worker_env \<Rightarrow> string \<Rightarrow> js_error + notification list" where
  "periodicsync env event_tag =
     (if event_tag = ''check-inactivity'' then checkInactivityAndNotify env else Inr [])"

section \<open>Composed paths and auxiliary functions\<close>

text \<open>
  What a receiver reads from a blob of \<open>createBlob\<close>: the base64 text decoded and the
  bytes viewed as signed 16-bit integers. And the way of a frame through both codecs:
  \<open>createBlob\<close>, \<open>decode\<close>, \<open>decodeAudioData\<close> with the arguments of the source, channel 0.
\<close>

definition wire_samples :: "real list \<Rightarrow> js_error + int list" where
  "wire_samples samples =
     (case createBlob samples of
        Inl e \<Rightarrow> Inl e
      | Inr b \<Rightarrow>
          (case decode (blob_data b) of
             Inl e \<Rightarrow> Inl e
           | Inr bytes \<Rightarrow>
               (case Int16Array bytes of
                  Inl e \<Rightarrow> Inl e
                | Inr int16 \<Rightarrow> Inr (map sint int16))))"

definition codec_round_trip :: "real list \<Rightarrow> js_error + real list" where
  "codec_round_trip samples =
     (case createBlob samples of
        Inl e \<Rightarrow> Inl e
      | Inr b \<Rightarrow>
          (case decode (blob_data b) of
             Inl e \<Rightarrow> Inl e
           | Inr bytes \<Rightarrow>
               (case decodeAudioData bytes 24000 1 of
                  Inl e \<Rightarrow> Inl e
                | Inr buffer \<Rightarrow> Inr (channelData buffer ! 0))))"

text \<open>Messages of the remote endpoint that carry one thing only.\<close>

definition silent :: server_message where
  "silent = \<lparr>inputTranscription = None, outputTranscription = None, inlineData = None,
             turnComplete = False, interrupted = False\<rparr>"

definition input_fragment :: "string \<Rightarrow> server_message" where
  "input_fragment text = silent\<lparr>inputTranscription := Some text\<rparr>"

definition output_fragment :: "string \<Rightarrow> server_message" where
  "output_fragment text = silent\<lparr>outputTranscription := Some text\<rparr>"

definition audio_chunk :: "string \<Rightarrow> server_message" where
  "audio_chunk base64Audio = silent\<lparr>inlineData := Some base64Audio\<rparr>"

definition turn_complete_signal :: server_message where
  "turn_complete_signal = silent\<lparr>turnComplete := True\<rparr>"

definition interrupt_signal :: server_message where
  "interrupt_signal = silent\<lparr>interrupted := True\<rparr>"

text \<open>
  The events that may run the interrupted branch, the start times among a list of effects,
  and the freshness of object identities: every source of the live set was made before
  the next one will be.
\<close>

fun resets :: "app \<Rightarrow> event \<Rightarrow> bool" where
  "resets s (Message now m) = interrupted m"
| "resets s Resume = (case suspended s of [] \<Rightarrow> False | k # ks \<Rightarrow> interrupted (waiting k))"
| "resets s e = False"

fun starts_of :: "effect list \<Rightarrow> real list" where
  "starts_of [] = []"
| "starts_of (StartSource i t # es) = t # starts_of es"
| "starts_of (e # es) = starts_of es"

definition fresh_ids :: "app \<Rightarrow> bool" where
  "fresh_ids s = list_all (\<lambda>source. source_id source < nextSourceId s) (outputSourcesRef s)"

text \<open>
  The cursor is still at or above the clock reading of every handler that waits: no
  interruption has put it back since those handlers clamped it.
\<close>

definition clamped :: "app \<Rightarrow> bool" where
  "clamped s = list_all (\<lambda>k. clock_read k \<le> nextStartTimeRef s) (suspended s)"

text \<open>A run in which no event may run the interrupted branch.\<close>

fun quiet :: "app \<Rightarrow> event list \<Rightarrow> bool" where
  "quiet s [] = True"
| "quiet s (e # es) = (\<not> resets s e \<and> quiet (step s e) es)"

text \<open>A session that is open: started from idle, the microphone granted, the remote open.\<close>

definition open_session :: app where
  "open_session = run idle [Toggle, StreamGranted [0], Opened, SessionResolved]"

text \<open>The transcription branches of \<open>onmessage\<close>, which come before the audio branch.\<close>

definition transcribed :: "app \<Rightarrow> server_message \<Rightarrow> app" where
  "transcribed s m =
     (let s1 = (case inputTranscription m of Some text \<Rightarrow> inputTranscriptionBranch s text | None \<Rightarrow> s)
      in (case outputTranscription m of Some text \<Rightarrow> outputTranscriptionBranch s1 text | None \<Rightarrow> s1))"

text \<open>The six-bit groups and the padding that \<open>b64_groups\<close> writes, apart.\<close>

fun sextets :: "nat list \<Rightarrow> nat list" where
  "sextets (a # b # c # rest) =
     (a div 4) # ((a mod 4) * 16 + b div 16) # ((b mod 16) * 4 + c div 64) # (c mod 64) #
     sextets rest"
| "sextets [a, b] = [a div 4, (a mod 4) * 16 + b div 16, (b mod 16) * 4]"
| "sextets [a] = [a div 4, (a mod 4) * 16]"
| "sextets [] = []"

fun pad :: "nat list \<Rightarrow> string" where
  "pad (a # b # c # rest) = pad rest"
| "pad [a, b] = ''=''"
| "pad [a] = ''==''"
| "pad [] = []"

section \<open>Base64 is lossless\<close>

lemma div_lt_256:
  "(b::nat) < 256 \<Longrightarrow> b div 16 < 16" "b < 256 \<Longrightarrow> b div 64 < 4" "b < 256 \<Longrightarrow> b div 4 < 64"
  by simp_all

lemma regroup1: "(b::nat) < 256 \<Longrightarrow> (a div 4) * 4 + ((a mod 4) * 16 + b div 16) div 16 = a"
  using div_lt_256(1) [of b] by simp

lemma regroup2:
  "(b::nat) < 256 \<Longrightarrow> c < 256 \<Longrightarrow>
   (((a mod 4) * 16 + b div 16) mod 16) * 16 + ((b mod 16) * 4 + c div 64) div 4 = b"
  using div_lt_256(1) [of b] div_lt_256(2) [of c] by simp

lemma regroup3: "(c::nat) < 256 \<Longrightarrow> (((b mod 16) * 4 + c div 64) mod 4) * 64 + c mod 64 = c"
  using div_lt_256(2) [of c] by simp

lemma regroup2_tail:
  "(b::nat) < 256 \<Longrightarrow> (((a mod 4) * 16 + b div 16) mod 16) * 16 + ((b mod 16) * 4) div 4 = b"
  using div_lt_256(1) [of b] by simp

lemma regroup1_tail: "(a div 4) * 4 + ((a mod 4) * 16) div 16 = (a::nat)"
  by simp

lemma sextet_lt:
  "(a::nat) < 256 \<Longrightarrow> a div 4 < 64"
  "(b::nat) < 256 \<Longrightarrow> (a mod 4) * 16 + b div 16 < 64"
  "(c::nat) < 256 \<Longrightarrow> (b mod 16) * 4 + c div 64 < 64"
  "(a mod 4) * 16 < (64::nat)"
  "(b mod 16) * 4 < (64::nat)"
proof -
  have m: "a mod 4 < 4" "b mod 16 < 16" by simp_all
  show "a < 256 \<Longrightarrow> a div 4 < 64" by simp
  show "b < 256 \<Longrightarrow> (a mod 4) * 16 + b div 16 < 64"
    using m(1) div_lt_256(1) [of b] by linarith
  show "c < 256 \<Longrightarrow> (b mod 16) * 4 + c div 64 < 64"
    using m(2) div_lt_256(2) [of c] by linarith
  show "(a mod 4) * 16 < (64::nat)" using m(1) by linarith
  show "(b mod 16) * 4 < (64::nat)" using m(2) by linarith
qed

lemma sextets_bound: "list_all (\<lambda>c. c < 256) s \<Longrightarrow> list_all (\<lambda>n. n < 64) (sextets s)"
  by (induction s rule: sextets.induct) (simp_all add: sextet_lt)

lemma sextets_bytes_inv: "list_all (\<lambda>c. c < 256) s \<Longrightarrow> sextets_bytes (sextets s) = s"
proof (induction s rule: sextets.induct)
  case (1 a b c rest)
  then have lt: "b < 256" "c < 256" and rest: "sextets_bytes (sextets rest) = rest"
    by simp_all
  show ?case
    by (simp only: sextets.simps sextets_bytes.simps regroup1 [OF lt(1)]
          regroup2 [OF lt] regroup3 [OF lt(2)] rest)
next
  case (2 a b)
  then have lt: "b < 256" by simp
  show ?case
    by (simp only: sextets.simps sextets_bytes.simps regroup1 [OF lt] regroup2_tail [OF lt])
next
  case (3 a)
  show ?case
    by (simp only: sextets.simps sextets_bytes.simps regroup1_tail)
next
  case 4
  show ?case by simp
qed

lemma b64_groups_split: "b64_groups s = map b64char (sextets s) @ pad s"
  by (induction s rule: b64_groups.induct) simp_all

lemma b64_table:
  "list_all (\<lambda>n. b64index (b64char n) = Some n \<and> b64char n \<noteq> CHR ''='' \<and>
                 \<not> ascii_whitespace (b64char n)) [0..<64]"
  by code_simp

lemma b64_char_props:
  assumes "n < 64"
  shows "b64index (b64char n) = Some n" "b64char n \<noteq> CHR ''=''" "\<not> ascii_whitespace (b64char n)"
  using b64_table assms by (auto simp: list_all_iff)

lemma pad_cases:
  "pad s = [] \<or> (pad s = ''='' \<and> sextets s \<noteq> []) \<or> (pad s = ''=='' \<and> sextets s \<noteq> [])"
  by (induction s rule: pad.induct) auto

lemma length_groups: "length (b64_groups s) mod 4 = 0"
  by (induction s rule: b64_groups.induct) simp_all

lemma length_sextets: "length (sextets s) mod 4 \<noteq> 1"
  by (induction s rule: sextets.induct) simp_all

lemma pad_no_ws: "filter (\<lambda>c. \<not> ascii_whitespace c) (pad s) = pad s"
  by (induction s rule: pad.induct) (simp_all add: ascii_whitespace_def)

lemma filter_b64:
  "list_all (\<lambda>n. n < 64) v \<Longrightarrow> filter (\<lambda>c. \<not> ascii_whitespace c) (map b64char v) = map b64char v"
  by (induction v) (simp_all add: b64_char_props)

lemma those_b64:
  "list_all (\<lambda>n. n < 64) v \<Longrightarrow> those (map (\<lambda>n. b64index (b64char n)) v) = Some v"
  by (induction v) (simp_all add: b64_char_props)

lemma last_b64: "list_all (\<lambda>n. n < 64) v \<Longrightarrow> v \<noteq> [] \<Longrightarrow> last (map b64char v) \<noteq> CHR ''=''"
  by (induction v) (auto simp: b64_char_props)

lemma strip_padding_groups:
  assumes "list_all (\<lambda>c. c < 256) s"
  shows "strip_padding (b64_groups s) = map b64char (sextets s)"
proof -
  have v: "list_all (\<lambda>n. n < 64) (sextets s)" using assms by (rule sextets_bound)
  have len: "length (map b64char (sextets s) @ pad s) mod 4 = 0"
    using length_groups [of s] by (simp only: b64_groups_split)
  from pad_cases [of s] show ?thesis
  proof (elim disjE conjE)
    assume p: "pad s = []"
    show ?thesis
      using last_b64 [OF v] by (auto simp: b64_groups_split p strip_padding_def)
  next
    assume p: "pad s = ''=''" and ne: "sextets s \<noteq> []"
    show ?thesis
      using last_b64 [OF v ne] len ne
      by (simp add: b64_groups_split p strip_padding_def butlast_append Let_def)
  next
    assume p: "pad s = ''==''" and ne: "sextets s \<noteq> []"
    show ?thesis
      using last_b64 [OF v ne] len ne
      by (simp add: b64_groups_split p strip_padding_def butlast_append Let_def)
  qed
qed

lemma atob_b64_groups:
  assumes "list_all (\<lambda>c. c < 256) s"
  shows "atob (b64_groups s) = Inr s"
proof -
  have v: "list_all (\<lambda>n. n < 64) (sextets s)" using assms by (rule sextets_bound)
  have f: "filter (\<lambda>c. \<not> ascii_whitespace c) (b64_groups s) = b64_groups s"
    by (simp add: b64_groups_split filter_b64 [OF v] pad_no_ws)
  show ?thesis
    using length_sextets [of s]
    by (simp add: atob_def f strip_padding_groups [OF assms] those_b64 [OF v]
          sextets_bytes_inv [OF assms] comp_def)
qed

lemma unat_bytes: "list_all (\<lambda>c. c < 256) (map unat (bytes :: 8 word list))"
proof -
  have "unat b < 256" for b :: "8 word"
    using unsigned_less [of b, where ?'a = nat] by simp
  then show ?thesis by (simp add: list_all_iff)
qed

lemma encode_total: "encode bytes = Inr (b64_groups (map unat bytes))"
  using unat_bytes [of bytes] by (auto simp: encode_def btoa_def list_ex_iff list_all_iff)

lemma decode_encode: "decode (b64_groups (map unat bytes)) = Inr bytes"
  by (simp add: decode_def atob_b64_groups [OF unat_bytes] comp_def map_idI)

section \<open>Sixteen-bit samples and their bytes\<close>

lemma int16_of_bytes_inv: "int16_of_bytes (ucast w) (ucast (drop_bit 8 w)) = w"
  unfolding int16_of_bytes_def
  by (rule bit_word_eqI) (auto simp: bit_simps)

lemma int16_pairs_buffer: "int16_pairs (int16_buffer ws) = ws"
  unfolding int16_buffer_def
  by (induction ws) (simp_all add: int16_bytes_def int16_of_bytes_inv)

lemma length_int16_buffer: "length (int16_buffer ws) = 2 * length ws"
  unfolding int16_buffer_def
  by (induction ws) (simp_all add: int16_bytes_def)

lemma length_int16_pairs: "length (int16_pairs bs) = length bs div 2"
  by (induction bs rule: int16_pairs.induct) simp_all

lemma nth_int16_buffer:
  "i < length ws \<Longrightarrow>
   int16_buffer ws ! (2 * i) = ucast (ws ! i) \<and>
   int16_buffer ws ! (2 * i + 1) = ucast (drop_bit 8 (ws ! i))"
  unfolding int16_buffer_def
proof (induction ws arbitrary: i)
  case Nil
  then show ?case by simp
next
  case (Cons w ws)
  show ?case
  proof (cases i)
    case 0
    then show ?thesis by (simp add: int16_bytes_def)
  next
    case (Suc j)
    with Cons.prems have "j < length ws" by simp
    from Cons.IH [OF this] show ?thesis
      using Suc by (simp add: int16_bytes_def)
  qed
qed

lemma le_bytes_value:
  fixes w :: "16 word"
  shows "uint (ucast w :: 8 word) + 256 * uint (ucast (drop_bit 8 w) :: 8 word) = uint w"
proof -
  have lt: "uint w < 65536" using uint_bounded [of w] by simp
  have a: "uint (ucast w :: 8 word) = uint w mod 256"
    by (simp add: unsigned_ucast_eq take_bit_eq_mod)
  have b: "uint (ucast (drop_bit 8 w) :: 8 word) = uint w div 256"
  proof -
    have "uint (drop_bit 8 w) = uint w div 256"
      by (simp add: drop_bit_eq_div uint_div)
    moreover have "uint w div 256 < 256" using lt by simp
    moreover have "0 \<le> uint w div 256" by (simp add: pos_imp_zdiv_nonneg_iff)
    ultimately show ?thesis
      by (simp add: unsigned_ucast_eq take_bit_eq_mod)
  qed
  show ?thesis unfolding a b by simp
qed

lemma uint_ToInt16: "uint (ToInt16 x) = trunc x mod 65536"
  by (simp add: ToInt16_def uint_word_of_int)

lemma sint_ToInt16_wrap: "sint (ToInt16 x) = (trunc x + 32768) mod 65536 - 32768"
  by (simp add: ToInt16_def signed_of_int signed_take_bit_eq_take_bit_shift take_bit_eq_mod)

lemma trunc_bounds:
  assumes "- 32768 \<le> x" "x < 32768"
  shows "- 32768 \<le> trunc x" "trunc x < 32768"
  using assms by (auto simp: trunc_def) linarith+

lemma sint_ToInt16: "- 32768 \<le> x \<Longrightarrow> x < 32768 \<Longrightarrow> sint (ToInt16 x) = trunc x"
  using trunc_bounds [of x] by (simp add: sint_ToInt16_wrap)

lemma trunc_error: "\<bar>real_of_int (trunc x) - x\<bar> < 1"
  by (simp add: trunc_def) linarith

section \<open>The loops of \<open>decodeAudioData\<close>\<close>

lemma fold_update_length: "length (fold (\<lambda>i xs. xs[i := f i]) js xs) = length xs"
  by (induction js arbitrary: xs) simp_all

lemma fold_update_nth:
  "j < length xs \<Longrightarrow>
   fold (\<lambda>i xs. xs[i := f i]) [0..<m] xs ! j = (if j < m then f j else xs ! j)"
proof (induction m)
  case 0
  then show ?case by simp
next
  case (Suc m)
  then show ?case
    by (simp add: fold_update_length nth_list_update less_Suc_eq)
qed

lemma fold_update_map:
  "length xs \<le> m \<Longrightarrow> fold (\<lambda>i xs. xs[i := f i]) [0..<m] xs = map f [0..<length xs]"
  by (rule nth_equalityI) (simp_all add: fold_update_length fold_update_nth)

lemma frame_count_floor: "nat \<lfloor>real n / real c\<rfloor> = n div c"
  by (simp add: floor_divide_of_nat_eq)

lemma decodeAudioData_odd: "odd (length data) \<Longrightarrow> decodeAudioData data rate c = Inl RangeError"
  by (simp add: decodeAudioData_def Int16Array_def)

lemma decodeAudioData_frames:
  assumes "even (length data)" "1 \<le> c" "c \<le> 32" "8000 \<le> rate" "rate \<le> 96000"
    and "2 * c \<le> length data"
  shows "\<exists>b. decodeAudioData data rate c = Inr b \<and> frames b = length data div (2 * c) \<and>
             numberOfChannels b = c \<and> sampleRate b = rate"
proof -
  have "length data div 2 div c \<noteq> 0"
    using assms(2,6) by (simp add: div_mult2_eq [symmetric] div_eq_0_iff)
  then show ?thesis
    using assms
    by (simp add: decodeAudioData_def Int16Array_def createBuffer_def length_int16_pairs
          frame_count_floor Let_def div_mult2_eq)
qed

lemma Int16Array_even: "even (length data) \<Longrightarrow> Int16Array data = Inr (int16_pairs data)"
  by (simp add: Int16Array_def)

lemma decodeAudioData_short:
  assumes "even (length data)" "length data < 2 * c"
  shows "decodeAudioData data rate c = Inl NotSupportedError"
proof -
  have "length data div 2 div c = 0"
    using assms(2) by (simp add: div_mult2_eq [symmetric])
  then have fc: "nat \<lfloor>real (length (int16_pairs data)) / real c\<rfloor> = 0"
    by (simp only: frame_count_floor length_int16_pairs)
  have cb: "createBuffer c 0 rate = Inl NotSupportedError"
    by (simp add: createBuffer_def)
  show ?thesis
    unfolding decodeAudioData_def Int16Array_even [OF assms(1)] sum.case Let_def fc cb
    by simp
qed

lemma map_sample_nth:
  "map (\<lambda>i. g (ds ! (i * 1 + 0))) [0..<length ds] = map g ds"
  by (rule nth_equalityI) simp_all

lemma decodeAudioData_mono:
  assumes "even (length data)" "data \<noteq> []"
  shows "decodeAudioData data 24000 1 =
         Inr \<lparr>numberOfChannels = 1, frames = length data div 2, sampleRate = 24000,
              channelData = [map (\<lambda>w. real_of_int (sint w) / 32768) (int16_pairs data)]\<rparr>"
proof -
  let ?ds = "int16_pairs data"
  let ?g = "\<lambda>w :: 16 word. real_of_int (sint w) / 32768"
  have n: "length ?ds = length data div 2" by (rule length_int16_pairs)
  have pos: "length data div 2 \<noteq> 0" using assms by (cases data) auto
  have "fill_channel ?ds 1 0 (real (length ?ds) / real 1) (replicate (length ?ds) 0) =
        map (\<lambda>i. ?g (?ds ! (i * 1 + 0))) [0..<length (replicate (length ?ds) (0::real))]"
    unfolding fill_channel_def by (rule fold_update_map) simp
  also have "\<dots> = map (\<lambda>i. ?g (?ds ! (i * 1 + 0))) [0..<length ?ds]"
    by (simp only: length_replicate)
  also have "\<dots> = map ?g ?ds"
    by (rule map_sample_nth)
  finally have fill:
    "fill_channel ?ds 1 0 (real (length ?ds) / real 1) (replicate (length ?ds) 0) = map ?g ?ds" .
  have cb: "createBuffer 1 (length ?ds) 24000 =
            Inr \<lparr>numberOfChannels = 1, frames = length ?ds, sampleRate = 24000,
                 channelData = [replicate (length ?ds) 0]\<rparr>"
    using pos by (simp add: createBuffer_def n)
  have fc: "nat \<lfloor>real (length ?ds) / real 1\<rfloor> = length ?ds" by simp
  show ?thesis
    using fill
    unfolding decodeAudioData_def Int16Array_even [OF assms(1)] sum.case Let_def fc cb
    by (simp add: n)
qed

section \<open>The claims about the codec\<close>

lemma createBlob_eq:
  "createBlob samples =
   Inr \<lparr>blob_data = b64_groups (map unat (int16_buffer (map (\<lambda>s. ToInt16 (s * 32768)) samples))),
        blob_mimeType = ''audio/pcm;rate=16000''\<rparr>"
  by (simp add: createBlob_def encode_total Let_def)

lemma wire_samples_eq:
  "wire_samples samples = Inr (map (\<lambda>s. sint (ToInt16 (s * 32768))) samples)"
  by (simp add: wire_samples_def createBlob_eq decode_encode Int16Array_def length_int16_buffer
        int16_pairs_buffer comp_def)

lemma codec_round_trip_eq:
  assumes "samples \<noteq> []"
  shows "codec_round_trip samples =
         Inr (map (\<lambda>s. real_of_int (sint (ToInt16 (s * 32768))) / 32768) samples)"
proof -
  let ?bytes = "int16_buffer (map (\<lambda>s. ToInt16 (s * 32768)) samples)"
  have ev: "even (length ?bytes)" by (simp only: length_int16_buffer) simp
  have ne: "?bytes \<noteq> []"
    using assms length_int16_buffer [of "map (\<lambda>s. ToInt16 (s * 32768)) samples"] by auto
  show ?thesis
    unfolding codec_round_trip_def createBlob_eq sum.case blob.select_convs decode_encode
      decodeAudioData_mono [OF ev ne]
    by (simp add: int16_pairs_buffer comp_def)
qed

lemma quantization_error:
  assumes "- 1 \<le> s" "s < 1"
  shows "\<bar>real_of_int (sint (ToInt16 (s * 32768))) / 32768 - s\<bar> < 1 / 32768"
proof -
  have "sint (ToInt16 (s * 32768)) = trunc (s * 32768)"
    using assms by (intro sint_ToInt16) simp_all
  moreover have "\<bar>real_of_int (trunc (s * 32768)) - s * 32768\<bar> < 1"
    by (rule trunc_error)
  ultimately show ?thesis by (simp add: field_simps abs_if split: if_splits)
qed

text \<open>
  Claim C4, as the code has it. \<open>createBlob\<close> never raises. Sample \<open>i\<close> goes to bytes
  \<open>2 i\<close> (low) and \<open>2 i + 1\<close> (high) of the payload, which together hold the integer part
  of \<open>s * 32768\<close>, the fraction dropped towards zero, modulo \<open>2 ^ 16\<close>; read back as a
  signed 16-bit number that is the truncated product itself for \<open>- 1 \<le> s < 1\<close>. The bytes
  are sent as base64, which \<open>decode\<close> undoes, under the tag \<open>audio/pcm;rate=16000\<close>.
\<close>

theorem createBlob_wire_format:
  "(\<exists>bytes.
      createBlob samples =
        Inr \<lparr>blob_data = b64_groups (map unat bytes), blob_mimeType = ''audio/pcm;rate=16000''\<rparr> \<and>
      decode (b64_groups (map unat bytes)) = Inr bytes \<and>
      length bytes = 2 * length samples \<and>
      (\<forall>i<length samples.
         uint (bytes ! (2 * i)) + 256 * uint (bytes ! (2 * i + 1)) =
         trunc (samples ! i * 32768) mod 65536)) \<and>
   wire_samples samples = Inr (map (\<lambda>s. (trunc (s * 32768) + 32768) mod 65536 - 32768) samples) \<and>
   (list_all (\<lambda>s. - 1 \<le> s \<and> s < 1) samples \<longrightarrow>
      wire_samples samples = Inr (map (\<lambda>s. trunc (s * 32768)) samples))"
proof -
  let ?ws = "map (\<lambda>s. ToInt16 (s * 32768)) samples"
  let ?bytes = "int16_buffer ?ws"
  have le: "uint (?bytes ! (2 * i)) + 256 * uint (?bytes ! (2 * i + 1)) = trunc (samples ! i * 32768) mod 65536"
    if "i < length samples" for i
  proof -
    from that have "i < length ?ws" by simp
    from nth_int16_buffer [OF this] that show ?thesis
      by (simp only: le_bytes_value nth_map uint_ToInt16)
  qed
  have in_range: "wire_samples samples = Inr (map (\<lambda>s. trunc (s * 32768)) samples)"
    if "list_all (\<lambda>s. - 1 \<le> s \<and> s < 1) samples"
  proof -
    have "sint (ToInt16 (s * 32768)) = trunc (s * 32768)" if "s \<in> set samples" for s
      using that \<open>list_all _ samples\<close> by (intro sint_ToInt16) (auto simp: list_all_iff)
    then show ?thesis by (simp add: wire_samples_eq)
  qed
  have bytes: "createBlob samples =
        Inr \<lparr>blob_data = b64_groups (map unat ?bytes), blob_mimeType = ''audio/pcm;rate=16000''\<rparr> \<and>
      decode (b64_groups (map unat ?bytes)) = Inr ?bytes \<and>
      length ?bytes = 2 * length samples \<and>
      (\<forall>i<length samples.
         uint (?bytes ! (2 * i)) + 256 * uint (?bytes ! (2 * i + 1)) =
         trunc (samples ! i * 32768) mod 65536)"
    using le by (simp add: createBlob_eq decode_encode length_int16_buffer)
  have wrap: "wire_samples samples =
      Inr (map (\<lambda>s. (trunc (s * 32768) + 32768) mod 65536 - 32768) samples)"
    by (simp add: wire_samples_eq sint_ToInt16_wrap)
  from bytes wrap in_range show ?thesis by blast
qed

text \<open>The theorem at the frame \<open>[1/2, - 1]\<close>.\<close>

theorem createBlob_wire_format_witness:
  "wire_samples [1 / 2, - 1] = Inr [16384, - 32768]"
  using createBlob_wire_format [of "[1 / 2, - 1]"] by (simp add: trunc_def)

text \<open>
  The sample \<open>3 / 131072\<close> has the product \<open>3 / 4\<close>, which rounds to 1; the wire carries 0.
\<close>

theorem createBlob_rounds_counterexample:
  "wire_samples [3 / 131072] = Inr [0] \<and> round (3 / 131072 * 32768 :: real) = 1"
  by (simp add: wire_samples_eq ToInt16_def trunc_def round_def)

text \<open>
  Claim C5, as the code has it. A frame that is not empty and whose samples lie in
  \<open>[- 1, 1)\<close> comes back from \<open>createBlob\<close>, \<open>decode\<close> and \<open>decodeAudioData\<close> with the
  same length and every sample less than \<open>1 / 32768\<close> away from the original.
\<close>

theorem codec_round_trip_error:
  assumes "samples \<noteq> []" and "list_all (\<lambda>x. - 1 \<le> x \<and> x < 1) samples"
  shows "\<exists>ys. codec_round_trip samples = Inr ys \<and> length ys = length samples \<and>
              (\<forall>i<length samples. \<bar>ys ! i - samples ! i\<bar> < 1 / 32768)"
proof -
  let ?f = "\<lambda>s. real_of_int (sint (ToInt16 (s * 32768))) / 32768"
  have eq: "codec_round_trip samples = Inr (map ?f samples)"
    by (rule codec_round_trip_eq [OF assms(1)])
  have "\<bar>map ?f samples ! i - samples ! i\<bar> < 1 / 32768" if "i < length samples" for i
  proof -
    from that assms(2) have "- 1 \<le> samples ! i" "samples ! i < 1"
      by (simp_all add: list_all_length)
    from quantization_error [OF this] that show ?thesis by (simp only: nth_map)
  qed
  with eq show ?thesis by (intro exI [of _ "map ?f samples"]) simp
qed

text \<open>The theorem at the frame \<open>[1/2, - 1]\<close>.\<close>

theorem codec_round_trip_error_witness:
  "[1 / 2, - 1] \<noteq> ([] :: real list) \<and> list_all (\<lambda>x. - 1 \<le> x \<and> x < 1) [1 / 2, - 1 :: real] \<and>
   (\<exists>ys. codec_round_trip [1 / 2, - 1] = Inr ys \<and> length ys = length [1 / 2, - 1 :: real] \<and>
        (\<forall>i<length [1 / 2, - 1 :: real]. \<bar>ys ! i - [1 / 2, - 1] ! i\<bar> < 1 / 32768))"
proof -
  have h1: "[1 / 2, - 1] \<noteq> ([] :: real list)" by simp
  have h2: "list_all (\<lambda>x. - 1 \<le> x \<and> x < 1) [1 / 2, - 1 :: real]" by simp
  from h1 h2 codec_round_trip_error [OF h1 h2] show ?thesis by (intro conjI)
qed

text \<open>
  The sample \<open>1\<close> has the product \<open>32768\<close>, which ToInt16 wraps to \<open>- 32768\<close>: it comes
  back as \<open>- 1\<close>, two away from the original.
\<close>

theorem codec_round_trip_counterexample:
  "codec_round_trip [1] = Inr [- 1] \<and> \<not> \<bar>(- 1) - (1::real)\<bar> \<le> 1 / 32768"
  by (simp add: codec_round_trip_eq ToInt16_def trunc_def)

text \<open>
  Claim C9, as the code has it. With a channel count and a sample rate that every browser
  supports, \<open>decodeAudioData\<close> returns a buffer when the byte length is even and holds at
  least one frame; the buffer has \<open>\<lfloor>length / (2 * channels)\<rfloor>\<close> frames, so samples that do
  not fill a frame are dropped. An even length below one frame raises NotSupportedError
  and an odd length raises RangeError.
\<close>

theorem decodeAudioData_raises:
  assumes "1 \<le> c" "c \<le> 32" "8000 \<le> rate" "rate \<le> 96000"
  shows "(even (length data) \<and> 2 * c \<le> length data \<longrightarrow>
            (\<exists>b. decodeAudioData data rate c = Inr b \<and> frames b = length data div (2 * c))) \<and>
         (even (length data) \<and> length data < 2 * c \<longrightarrow>
            decodeAudioData data rate c = Inl NotSupportedError) \<and>
         (odd (length data) \<longrightarrow> decodeAudioData data rate c = Inl RangeError)"
  using decodeAudioData_frames [OF _ assms, of data] decodeAudioData_short [of data c rate]
    decodeAudioData_odd [of data rate c]
  by blast

text \<open>The theorem at a payload of three bytes and at a payload of two.\<close>

theorem decodeAudioData_raises_witness:
  "decodeAudioData [0, 128, 7] 24000 1 = Inl RangeError \<and>
   (\<exists>b. decodeAudioData [0, 128] 24000 1 = Inr b \<and> frames b = 1)"
  using decodeAudioData_raises [of 1 24000 "[0, 128, 7]"] decodeAudioData_raises [of 1 24000 "[0, 128]"]
  by simp

lemma decode_one_byte: "decode ''AA=='' = Inr [0]"
  by code_simp

text \<open>
  The base64 text \<open>AA==\<close> is one byte: \<open>decode\<close> accepts it and \<open>decodeAudioData\<close> raises.
\<close>

theorem decodeAudioData_counterexample:
  "decode ''AA=='' = Inr [0] \<and> decodeAudioData [0] 24000 1 = Inl RangeError"
  by (simp add: decodeAudioData_odd decode_one_byte)

section \<open>Teardown and the end of a session\<close>

lemma AudioContext_close_open: "st \<noteq> Closed \<Longrightarrow> AudioContext_close st = Inr Closed"
  by (simp add: AudioContext_close_def)

lemmas release_defs =
  stop_sources_def close_output_context_def close_input_context_def release_stream_source_def
  release_processor_def release_stream_def release_session_def

lemma stopListening_failures: "failures (stopListening s) = failures s"
  by (simp add: stopListening_def release_defs AudioContext_close_open Let_def
        split: option.splits)

lemma stopListening_released:
  "liveSessionRef (stopListening s) = None"
  "mediaStreamRef (stopListening s) = None"
  "scriptProcessorRef (stopListening s) = None"
  "mediaStreamSourceRef (stopListening s) = None"
  "inputAudioContextRef (stopListening s) \<in> {None, Some Closed}"
  "outputAudioContextRef (stopListening s) \<in> {None, Some Closed}"
  "outputSourcesRef (stopListening s) = []"
  "isListening (stopListening s) = False"
  "isLoading (stopListening s) = False"
  by (simp_all add: stopListening_def release_defs AudioContext_close_open Let_def
        split: option.splits)

lemma stopListening_fixpoint:
  assumes "liveSessionRef s = None" "mediaStreamRef s = None" "scriptProcessorRef s = None"
    "mediaStreamSourceRef s = None" "inputAudioContextRef s \<in> {None, Some Closed}"
    "outputAudioContextRef s \<in> {None, Some Closed}" "outputSourcesRef s = []"
    "isListening s = False" "isLoading s = False"
  shows "stopListening s = s"
  using assms
  by (auto simp: stopListening_def release_defs Let_def)

lemma stopListening_messages: "messages (stopListening s) = messages s"
  by (simp add: stopListening_def release_defs AudioContext_close_open Let_def
        split: option.splits)

lemma stopListening_cursor: "nextStartTimeRef (stopListening s) = nextStartTimeRef s"
  by (simp add: stopListening_def release_defs AudioContext_close_open Let_def
        split: option.splits)

text \<open>
  Claim C7. From any state of the component, also one in which nothing has been acquired
  or the session has not arrived yet, \<open>stopListening\<close> records no failure; a second call
  right after the first changes nothing: it performs no release again and records no
  failure. After the call the session, the stream and both nodes are gone from their refs
  and the live set is empty.
\<close>

theorem stopListening_idempotent:
  "failures (stopListening s) = failures s \<and>
   stopListening (stopListening s) = stopListening s \<and>
   trace (stopListening (stopListening s)) = trace (stopListening s) \<and>
   failures (stopListening (stopListening s)) = failures s \<and>
   liveSessionRef (stopListening s) = None \<and> mediaStreamRef (stopListening s) = None \<and>
   scriptProcessorRef (stopListening s) = None \<and> mediaStreamSourceRef (stopListening s) = None \<and>
   outputSourcesRef (stopListening s) = []"
proof -
  have once: "failures (stopListening s) = failures s"
    by (rule stopListening_failures)
  have twice: "stopListening (stopListening s) = stopListening s"
    by (rule stopListening_fixpoint) (rule stopListening_released)+
  from twice have "trace (stopListening (stopListening s)) = trace (stopListening s)"
    by simp
  moreover from twice once have "failures (stopListening (stopListening s)) = failures s"
    by simp
  ultimately show ?thesis
    using once twice by (simp add: stopListening_released)
qed

lemma open_session_eq:
  "open_session =
   idle\<lparr>messages := [say Model ''VOICE CHANNEL OPEN. LISTENING...''],
        isListening := True,
        trace := [SetTimestamp ''lastInteraction''],
        mediaStreamRef := Some [0],
        inputAudioContextRef := Some Running,
        outputAudioContextRef := Some Running,
        mediaStreamSourceRef := Some MediaStreamAudioSourceNode,
        scriptProcessorRef := Some ScriptProcessorNode,
        liveSessionRef := Some LiveSession\<rparr>"
  by (simp add: open_session_def run_def render_def toggleListening_def startListening_def
        getUserMedia_resolved_def onopen_def session_resolved_def idle_def Let_def)

text \<open>
  Claim C8, at an open session. The \<open>isListening\<close> that \<open>onclose\<close> reads is the one
  \<open>startListening\<close> was made with, which is false whenever \<open>toggleListening\<close> starts a
  session. So the remote close appends no message and releases nothing: the stream, the
  session and the contexts are held as before and the component still shows itself
  listening.
\<close>

theorem onclose_releases_nothing:
  "step open_session RemoteClose = open_session \<and>
   messages open_session = [say Model ''VOICE CHANNEL OPEN. LISTENING...''] \<and>
   mediaStreamRef open_session = Some [0] \<and>
   liveSessionRef open_session = Some LiveSession \<and>
   inputAudioContextRef open_session = Some Running \<and>
   isListening open_session"
proof -
  have captured: "\<not> closure_isListening open_session"
    by (simp add: open_session_eq idle_def)
  have rendered: "render open_session = open_session"
    by (simp add: open_session_eq idle_def render_def)
  from captured have "onclose open_session = open_session"
    by (simp add: onclose_def)
  with rendered have "step open_session RemoteClose = open_session"
    by simp
  then show ?thesis
    by (simp add: open_session_eq idle_def del: step.simps)
qed

text \<open>The sibling callback \<open>onerror\<close> appends its one message and tears down.\<close>

lemma onerror_open_session:
  "messages (step open_session (RemoteError e)) =
     [say Model ''VOICE CHANNEL OPEN. LISTENING...'', say Error (''LIVE_SESSION_ERROR: '' @ e)] \<and>
   mediaStreamRef (step open_session (RemoteError e)) = None \<and>
   \<not> isListening (step open_session (RemoteError e))"
  by (simp add: onerror_def render_def stopListening_messages stopListening_released
        open_session_eq idle_def)

section \<open>Transcription\<close>

text \<open>
  With an empty accumulator, the first fragment of the model replaces the last entry of the
  model whenever the log has one, whatever that entry says.
\<close>

lemma str_includes_empty: "str_includes cs []"
  by (cases cs) simp_all

lemma slice_whole_fragment: "slice text 0 (- int (length text)) = []"
  by (simp add: slice_def Let_def)

lemma first_model_fragment_overwrites:
  assumes "lastIndexOf (map role prev) Model \<noteq> - 1"
  shows "growModel text text prev = prev[nat (lastIndexOf (map role prev) Model) := say Model text]"
  using assms
  by (simp add: growModel_def Let_def slice_whole_fragment str_includes_empty)

text \<open>
  Claim C3, at an open session. The fragments \<open>Hel\<close> and \<open>lo\<close> of the user grow one new
  entry \<open>Hello\<close>. After the turn is complete the accumulator of the model is empty, so the
  text that the last entry of the model has to contain is empty as well and every entry
  contains it: the fragment \<open>Hi\<close> takes the place of the entry
  \<open>VOICE CHANNEL OPEN. LISTENING...\<close> and no entry is added.
\<close>

theorem model_fragment_overwrites:
  "messages (run open_session
     [Message 0 (input_fragment ''Hel''), Message 0 (input_fragment ''lo'')]) =
     [say Model ''VOICE CHANNEL OPEN. LISTENING...'', say User ''Hello''] \<and>
   messages (run open_session
     [Message 0 (input_fragment ''Hel''), Message 0 (input_fragment ''lo''),
      Message 0 turn_complete_signal, Message 0 (output_fragment ''Hi'')]) =
     [say Model ''Hi'', say User ''Hello'']"
  by (simp add: open_session_eq run_def onmessage_def render_def onmessage_rest_def
        input_fragment_def output_fragment_def turn_complete_signal_def silent_def
        inputTranscriptionBranch_def outputTranscriptionBranch_def turnCompleteBranch_def
        growUser_def growModel_def idle_def say_def slice_def Let_def)

text \<open>
  A fragment that comes together with the turn-complete flag: when React runs the updater
  the accumulator is empty again, and the entry is overwritten with the empty text.
\<close>

lemma fragment_with_turn_complete:
  "messages (run open_session [Message 0 ((output_fragment ''Hi'')\<lparr>turnComplete := True\<rparr>)]) =
     [say Model []]"
  by (simp add: open_session_eq run_def onmessage_def render_def onmessage_rest_def
        output_fragment_def silent_def outputTranscriptionBranch_def turnCompleteBranch_def
        growModel_def idle_def say_def slice_def Let_def)

section \<open>The playback scheduler\<close>

lemma duration_nonneg: "0 \<le> duration b"
  by (simp add: duration_def)



text \<open>What the transcription branches and React leave alone.\<close>

lemma transcribed_frame:
  "nextStartTimeRef (transcribed s m) = nextStartTimeRef s"
  "trace (transcribed s m) = trace s"
  "outputSourcesRef (transcribed s m) = outputSourcesRef s"
  "nextSourceId (transcribed s m) = nextSourceId s"
  "suspended (transcribed s m) = suspended s"
  "failures (transcribed s m) = failures s"
  "outputAudioContextRef (transcribed s m) = outputAudioContextRef s"
  "closure_isListening (transcribed s m) = closure_isListening s"
  by (simp_all add: transcribed_def inputTranscriptionBranch_def outputTranscriptionBranch_def
        Let_def split: option.splits)

lemma render_frame:
  "nextStartTimeRef (render s) = nextStartTimeRef s"
  "trace (render s) = trace s"
  "outputSourcesRef (render s) = outputSourcesRef s"
  "nextSourceId (render s) = nextSourceId s"
  "suspended (render s) = suspended s"
  "failures (render s) = failures s"
  "outputAudioContextRef (render s) = outputAudioContextRef s"
  "closure_isListening (render s) = closure_isListening s"
  "currentInputTranscriptionRef (render s) = currentInputTranscriptionRef s"
  "currentOutputTranscriptionRef (render s) = currentOutputTranscriptionRef s"
  by (simp_all add: render_def)

lemma rest_frame:
  "nextSourceId (onmessage_rest s m) = nextSourceId s"
  "suspended (onmessage_rest s m) = suspended s"
  "failures (onmessage_rest s m) = failures s"
  "outputAudioContextRef (onmessage_rest s m) = outputAudioContextRef s"
  "closure_isListening (onmessage_rest s m) = closure_isListening s"
  by (simp_all add: onmessage_rest_def turnCompleteBranch_def interruptedBranch_def Let_def)


lemma rest_not_interrupted:
  assumes "\<not> interrupted m"
  shows "outputSourcesRef (onmessage_rest s m) = outputSourcesRef s"
    "nextStartTimeRef (onmessage_rest s m) = nextStartTimeRef s"
    "trace (onmessage_rest s m) = trace s"
  using assms by (simp_all add: onmessage_rest_def turnCompleteBranch_def Let_def)

lemma starts_of_stops: "starts_of (map (\<lambda>source. StopSource (source_id source)) xs) = []"
  by (induction xs) simp_all

lemma rest_trace: "\<exists>es. trace (onmessage_rest s m) = trace s @ es \<and> starts_of es = []"
  by (simp add: onmessage_rest_def turnCompleteBranch_def interruptedBranch_def starts_of_stops
        Let_def)

text \<open>The ways \<open>onmessage\<close> returns to the event loop.\<close>

lemma onmessage_alt:
  "onmessage s now m =
     (case inlineData m of
        Some a \<Rightarrow>
          if a \<noteq> []
          then (case audioBranch (transcribed s m) now a m of
                  (s3, Some e) \<Rightarrow> s3\<lparr>failures := failures s3 @ [e]\<rparr>
                | (s3, None) \<Rightarrow> s3)
          else onmessage_rest (transcribed s m) m
      | None \<Rightarrow> onmessage_rest (transcribed s m) m)"
  by (simp add: onmessage_def transcribed_def Let_def split: option.splits)

lemma onmessage_cases:
  obtains
    (quiet) "inlineData m = None \<or> inlineData m = Some []"
      "onmessage s now m = onmessage_rest (transcribed s m) m"
  | (no_context) a where "inlineData m = Some a" "a \<noteq> []" "outputAudioContextRef s = None"
      "onmessage s now m = (transcribed s m)\<lparr>failures := failures s @ [TypeError]\<rparr>"
  | (raised) a e where "inlineData m = Some a" "a \<noteq> []" "decode a = Inl e"
      "onmessage s now m =
         (transcribed s m)\<lparr>nextStartTimeRef := max (nextStartTimeRef s) now,
                            failures := failures s @ [e]\<rparr>"
  | (waits) a bytes where "inlineData m = Some a" "a \<noteq> []" "decode a = Inr bytes"
      "outputAudioContextRef s \<noteq> None"
      "onmessage s now m =
         (transcribed s m)\<lparr>nextStartTimeRef := max (nextStartTimeRef s) now,
                            suspended := suspended s @
                              [\<lparr>clock_read = now, decoded = decodeAudioData bytes 24000 1,
                                waiting = m\<rparr>]\<rparr>"
proof (cases "inlineData m")
  case None
  then have "onmessage s now m = onmessage_rest (transcribed s m) m"
    by (simp add: onmessage_alt)
  with None show ?thesis by (intro quiet) simp_all
next
  case (Some a)
  show ?thesis
  proof (cases "a = []")
    case True
    with Some have "onmessage s now m = onmessage_rest (transcribed s m) m"
      by (simp add: onmessage_alt)
    with Some True show ?thesis by (intro quiet) simp_all
  next
    case False
    show ?thesis
    proof (cases "outputAudioContextRef s")
      case None
      with Some False have "onmessage s now m = (transcribed s m)\<lparr>failures := failures s @ [TypeError]\<rparr>"
        by (simp add: onmessage_alt audioBranch_def transcribed_frame)
      with Some False None show ?thesis by (intro no_context)
    next
      case ctx: (Some c)
      show ?thesis
      proof (cases "decode a")
        case (Inl e)
        with Some False ctx have "onmessage s now m =
           (transcribed s m)\<lparr>nextStartTimeRef := max (nextStartTimeRef s) now,
                              failures := failures s @ [e]\<rparr>"
          by (simp add: onmessage_alt audioBranch_def transcribed_frame Let_def)
        with Some False Inl show ?thesis by (intro raised)
      next
        case (Inr bytes)
        with Some False ctx have "onmessage s now m =
           (transcribed s m)\<lparr>nextStartTimeRef := max (nextStartTimeRef s) now,
                              suspended := suspended s @
                                [\<lparr>clock_read = now, decoded = decodeAudioData bytes 24000 1,
                                  waiting = m\<rparr>]\<rparr>"
          by (simp add: onmessage_alt audioBranch_def transcribed_frame Let_def)
        with Some False Inr ctx show ?thesis by (intro waits) simp_all
      qed
    qed
  qed
qed

text \<open>The ways a handler goes on after its \<open>await\<close>.\<close>

lemma resume_none: "suspended s = [] \<Longrightarrow> onmessage_resume s = s"
  by (simp add: onmessage_resume_def)

lemma resume_rejected:
  "suspended s = k # ks \<Longrightarrow> decoded k = Inl e \<Longrightarrow>
   onmessage_resume s = s\<lparr>suspended := ks, failures := failures s @ [e]\<rparr>"
  by (simp add: onmessage_resume_def Let_def)

lemma resume_started:
  "suspended s = k # ks \<Longrightarrow> decoded k = Inr b \<Longrightarrow>
   onmessage_resume s =
     onmessage_rest
       (s\<lparr>suspended := ks,
          nextSourceId := Suc (nextSourceId s),
          trace := trace s @ [StartSource (nextSourceId s) (nextStartTimeRef s)],
          nextStartTimeRef := nextStartTimeRef s + duration b,
          outputSourcesRef := outputSourcesRef s @
            [\<lparr>source_id = nextSourceId s, source_buffer = b, startAt = nextStartTimeRef s\<rparr>]\<rparr>)
       (waiting k)"
  by (simp add: onmessage_resume_def Let_def)

lemma resume_cases:
  obtains (none) "suspended s = []" "onmessage_resume s = s"
  | (rejected) k ks e where "suspended s = k # ks" "decoded k = Inl e"
      "onmessage_resume s = s\<lparr>suspended := ks, failures := failures s @ [e]\<rparr>"
  | (started) k ks b where "suspended s = k # ks" "decoded k = Inr b"
      "onmessage_resume s =
         onmessage_rest
           (s\<lparr>suspended := ks,
              nextSourceId := Suc (nextSourceId s),
              trace := trace s @ [StartSource (nextSourceId s) (nextStartTimeRef s)],
              nextStartTimeRef := nextStartTimeRef s + duration b,
              outputSourcesRef := outputSourcesRef s @
                [\<lparr>source_id = nextSourceId s, source_buffer = b, startAt = nextStartTimeRef s\<rparr>]\<rparr>)
           (waiting k)"
proof (cases "suspended s")
  case Nil
  then show ?thesis by (intro none) (simp_all add: resume_none)
next
  case (Cons k ks)
  show ?thesis
  proof (cases "decoded k")
    case (Inl e)
    with Cons show ?thesis by (intro rejected) (simp_all add: resume_rejected)
  next
    case (Inr b)
    with Cons show ?thesis by (intro started) (simp_all add: resume_started)
  qed
qed

text \<open>A message with a payload that decodes, handled with no other handler waiting.\<close>

lemma render_idem: "render (render s) = render s"
  by (simp add: render_def)







section \<open>The cursor\<close>

lemma stopListening_suspended: "suspended (stopListening s) = suspended s"
  by (simp add: stopListening_def release_defs AudioContext_close_open Let_def
        split: option.splits)

lemma onmessage_cursor:
  assumes "\<not> interrupted m"
  shows "nextStartTimeRef s \<le> nextStartTimeRef (onmessage s now m)"
  by (cases rule: onmessage_cases [of m s now])
     (simp_all add: rest_not_interrupted [OF assms] transcribed_frame)

lemma resume_cursor:
  assumes "\<not> resets s Resume"
  shows "nextStartTimeRef s \<le> nextStartTimeRef (onmessage_resume s)"
proof (cases rule: resume_cases [of s])
  case none
  then show ?thesis by simp
next
  case (rejected k ks e)
  then show ?thesis by simp
next
  case (started k ks b)
  with assms have "\<not> interrupted (waiting k)" by simp
  with started(3) duration_nonneg [of b] show ?thesis
    by (simp add: rest_not_interrupted)
qed

lemma handlers_suspended:
  "suspended (toggleListening s) = suspended s"
  "suspended (getUserMedia_resolved s stream) = suspended s"
  "suspended (startListening_catch s x) = suspended s"
  "suspended (onopen s) = suspended s"
  "suspended (session_resolved s) = suspended s"
  "suspended (onaudioprocess s d) = suspended s"
  "suspended (onended s i) = suspended s"
  "suspended (onerror s x) = suspended s"
  "suspended (onclose s) = suspended s"
  by (simp_all add: toggleListening_def startListening_def stopListening_suspended
        getUserMedia_resolved_def startListening_catch_def onopen_def session_resolved_def
        onaudioprocess_def onended_def onerror_def onclose_def Let_def
        split: option.splits ctx_state.splits sum.splits)

lemma handlers_cursor:
  "nextStartTimeRef (toggleListening s) = nextStartTimeRef s"
  "nextStartTimeRef (getUserMedia_resolved s stream) = nextStartTimeRef s"
  "nextStartTimeRef (startListening_catch s x) = nextStartTimeRef s"
  "nextStartTimeRef (onopen s) = nextStartTimeRef s"
  "nextStartTimeRef (session_resolved s) = nextStartTimeRef s"
  "nextStartTimeRef (onaudioprocess s d) = nextStartTimeRef s"
  "nextStartTimeRef (onended s i) = nextStartTimeRef s"
  "nextStartTimeRef (onerror s x) = nextStartTimeRef s"
  "nextStartTimeRef (onclose s) = nextStartTimeRef s"
  by (simp_all add: toggleListening_def startListening_def stopListening_cursor
        getUserMedia_resolved_def startListening_catch_def onopen_def session_resolved_def
        onaudioprocess_def onended_def onerror_def onclose_def Let_def
        split: option.splits ctx_state.splits sum.splits)

lemma step_cursor:
  assumes "\<not> resets s e"
  shows "nextStartTimeRef s \<le> nextStartTimeRef (step s e)"
proof (cases e)
  case (Message now m)
  with assms onmessage_cursor [of m "render s" now] show ?thesis
    by (simp add: render_frame)
next
  case Resume
  with assms show ?thesis by (simp add: resume_cursor)
qed (simp_all add: handlers_cursor render_frame)

lemma step_clamped:
  assumes quiet: "\<not> resets s e" and c: "clamped s"
  shows "clamped (step s e)"
proof (cases e)
  case (Message now m)
  from quiet Message have ni: "\<not> interrupted m" by simp
  from c have c': "clamped (render s)" by (simp add: clamped_def render_frame)
  have "clamped (onmessage (render s) now m)"
  proof (cases rule: onmessage_cases [of m "render s" now])
    case quiet
    with c' show ?thesis
      by (simp add: clamped_def rest_not_interrupted [OF ni] rest_frame transcribed_frame)
  next
    case (no_context a)
    with c' show ?thesis by (simp add: clamped_def transcribed_frame)
  next
    case (raised a e)
    with c' show ?thesis by (auto simp: clamped_def transcribed_frame list_all_iff)
  next
    case (waits a bytes)
    with c' show ?thesis by (auto simp: clamped_def transcribed_frame list_all_iff)
  qed
  with Message show ?thesis by simp
next
  case Resume
  show ?thesis
  proof (cases rule: resume_cases [of s])
    case none
    with c Resume show ?thesis by simp
  next
    case (rejected k ks e)
    with c Resume show ?thesis by (simp add: clamped_def)
  next
    case (started k ks b)
    with quiet Resume have "\<not> interrupted (waiting k)" by simp
    with c started Resume duration_nonneg [of b] show ?thesis
      by (auto simp: clamped_def rest_not_interrupted rest_frame list_all_iff)
  qed
qed (insert c, simp_all add: clamped_def handlers_suspended handlers_cursor render_frame)

lemma quiet_clamped: "quiet s es \<Longrightarrow> clamped s \<Longrightarrow> clamped (run s es)"
proof -
  have "quiet s es \<Longrightarrow> clamped s \<Longrightarrow> clamped (foldl step s es)"
    by (induction es arbitrary: s) (simp_all add: step_clamped)
  then show "quiet s es \<Longrightarrow> clamped s \<Longrightarrow> clamped (run s es)"
    by (simp add: run_def clamped_def render_frame)
qed

lemma resume_start:
  assumes "clamped s" "suspended s = k # ks" "decoded k = Inr b"
  shows "starts_of (drop (length (trace s)) (trace (step s Resume))) = [nextStartTimeRef s] \<and>
         clock_read k \<le> nextStartTimeRef s"
proof -
  let ?s2 = "s\<lparr>suspended := ks,
          nextSourceId := Suc (nextSourceId s),
          trace := trace s @ [StartSource (nextSourceId s) (nextStartTimeRef s)],
          nextStartTimeRef := nextStartTimeRef s + duration b,
          outputSourcesRef := outputSourcesRef s @
            [\<lparr>source_id = nextSourceId s, source_buffer = b, startAt = nextStartTimeRef s\<rparr>]\<rparr>"
  from rest_trace [of ?s2 "waiting k"] obtain es where
    es: "trace (onmessage_rest ?s2 (waiting k)) = trace ?s2 @ es" "starts_of es = []"
    by blast
  have "trace (step s Resume) = trace s @ (StartSource (nextSourceId s) (nextStartTimeRef s) # es)"
    using es(1) by (simp add: resume_started [OF assms(2,3)])
  then have "starts_of (drop (length (trace s)) (trace (step s Resume))) = [nextStartTimeRef s]"
    using es(2) by simp
  moreover from assms(1,2) have "clock_read k \<le> nextStartTimeRef s"
    by (simp add: clamped_def)
  ultimately show ?thesis by simp
qed

lemma message_starts_nothing:
  "starts_of (drop (length (trace s)) (trace (step s (Message now m)))) = []"
proof (cases rule: onmessage_cases [of m "render s" now])
  case quiet
  from rest_trace [of "transcribed (render s) m" m] obtain es where
    "trace (onmessage_rest (transcribed (render s) m) m) = trace s @ es" "starts_of es = []"
    by (auto simp: transcribed_frame render_frame)
  with quiet show ?thesis by simp
qed (simp_all add: render_frame transcribed_frame)

section \<open>The identities of the sources\<close>

lemma fresh_ids_rest: "fresh_ids s \<Longrightarrow> fresh_ids (onmessage_rest s m)"
  by (simp add: fresh_ids_def onmessage_rest_def interruptedBranch_def turnCompleteBranch_def
        Let_def)

lemma fresh_ids_render: "fresh_ids s \<Longrightarrow> fresh_ids (render s)"
  by (simp add: fresh_ids_def render_frame)

lemma fresh_ids_handlers:
  assumes "fresh_ids s"
  shows "fresh_ids (toggleListening s)" "fresh_ids (getUserMedia_resolved s stream)"
    "fresh_ids (startListening_catch s x)" "fresh_ids (onopen s)" "fresh_ids (session_resolved s)"
    "fresh_ids (onaudioprocess s d)" "fresh_ids (onended s i)" "fresh_ids (onerror s x)"
    "fresh_ids (onclose s)"
  using assms
  by (auto simp: fresh_ids_def toggleListening_def startListening_def stopListening_def
        release_defs AudioContext_close_open getUserMedia_resolved_def startListening_catch_def
        onopen_def session_resolved_def onaudioprocess_def onended_def onerror_def onclose_def
        Let_def list_all_iff
        split: option.splits ctx_state.splits sum.splits)

lemma fresh_ids_step: "fresh_ids s \<Longrightarrow> fresh_ids (step s e)"
proof (cases e)
  case (Message now m)
  assume "fresh_ids s"
  then have tr: "fresh_ids (transcribed (render s) m)"
    by (simp add: fresh_ids_def transcribed_frame render_frame)
  have "fresh_ids (onmessage (render s) now m)"
  proof (cases rule: onmessage_cases [of m "render s" now])
    case quiet
    with fresh_ids_rest [OF tr] show ?thesis by simp
  qed (insert tr, simp_all add: fresh_ids_def)
  with Message show ?thesis by simp
next
  case Resume
  assume f: "fresh_ids s"
  show ?thesis
  proof (cases rule: resume_cases [of s])
    case (started k ks b)
    let ?s2 = "s\<lparr>suspended := ks,
          nextSourceId := Suc (nextSourceId s),
          trace := trace s @ [StartSource (nextSourceId s) (nextStartTimeRef s)],
          nextStartTimeRef := nextStartTimeRef s + duration b,
          outputSourcesRef := outputSourcesRef s @
            [\<lparr>source_id = nextSourceId s, source_buffer = b, startAt = nextStartTimeRef s\<rparr>]\<rparr>"
    have "fresh_ids ?s2" using f by (auto simp: fresh_ids_def list_all_iff)
    from fresh_ids_rest [OF this] started(3) Resume show ?thesis by simp
  qed (insert f Resume, simp_all add: fresh_ids_def)
qed (simp_all add: fresh_ids_handlers fresh_ids_render)

lemma fresh_ids_run: "fresh_ids s \<Longrightarrow> fresh_ids (run s es)"
proof -
  have "fresh_ids s \<Longrightarrow> fresh_ids (foldl step s es)"
    by (induction es arbitrary: s) (simp_all add: fresh_ids_step)
  then show "fresh_ids s \<Longrightarrow> fresh_ids (run s es)"
    by (simp add: run_def fresh_ids_render)
qed

lemma fresh_ids_reachable: "fresh_ids (run idle es)"
  by (rule fresh_ids_run) (simp add: fresh_ids_def idle_def)


section \<open>What \<open>onclose\<close> closed over\<close>

text \<open>
  In every state the component reaches from idle the captured \<open>isListening\<close> is false, so
  \<open>onclose\<close> never acts.
\<close>

lemma stopListening_closure: "closure_isListening (stopListening s) = closure_isListening s"
  by (simp add: stopListening_def release_defs AudioContext_close_open Let_def
        split: option.splits)

lemma onmessage_closure: "closure_isListening (onmessage s now m) = closure_isListening s"
  by (cases rule: onmessage_cases [of m s now]) (simp_all add: rest_frame transcribed_frame)

lemma resume_closure: "closure_isListening (onmessage_resume s) = closure_isListening s"
  by (cases rule: resume_cases [of s]) (simp_all add: rest_frame)

lemma closure_step: "\<not> closure_isListening s \<Longrightarrow> \<not> closure_isListening (step s e)"
  by (cases e)
     (simp_all add: toggleListening_def startListening_def stopListening_closure
        getUserMedia_resolved_def startListening_catch_def onopen_def session_resolved_def
        onaudioprocess_def onmessage_closure resume_closure render_frame onended_def
        onerror_def onclose_def Let_def
        split: option.splits ctx_state.splits sum.splits)

lemma closure_reachable: "\<not> closure_isListening (run idle es)"
proof -
  have "\<not> closure_isListening s \<Longrightarrow> \<not> closure_isListening (foldl step s es)" for s
    by (induction es arbitrary: s) (simp_all add: closure_step)
  then show ?thesis by (simp add: run_def idle_def render_frame)
qed

lemma onclose_never_acts: "step (run idle es) RemoteClose = run idle es"
  using closure_reachable [of es] by (simp add: onclose_def run_def render_idem)

section \<open>The claims about the scheduler\<close>

text \<open>The payload \<open>AAA=\<close> is one silent frame, 1/24000 s long.\<close>

lemma decode_one_frame: "decode ''AAA='' = Inr [0, 0]"
  by code_simp

lemma decodeAudioData_one_frame:
  "decodeAudioData [0, 0] 24000 1 =
   Inr \<lparr>numberOfChannels = 1, frames = 1, sampleRate = 24000, channelData = [[0]]\<rparr>"
  using decodeAudioData_mono [of "[0, 0]"] by (simp add: int16_of_bytes_def)

lemma open_session_ready:
  "outputAudioContextRef open_session \<noteq> None" "suspended open_session = []"
  "fresh_ids open_session" "nextStartTimeRef open_session = 0" "nextSourceId open_session = 0"
  "outputSourcesRef open_session = []" "trace open_session = [SetTimestamp ''lastInteraction'']"
  by (simp_all add: open_session_eq idle_def fresh_ids_def)


lemmas session_defs =
  run_def render_def onmessage_def audioBranch_def onmessage_resume_def onmessage_rest_def
  interruptedBranch_def turnCompleteBranch_def inputTranscriptionBranch_def
  outputTranscriptionBranch_def audio_chunk_def interrupt_signal_def silent_def

lemma decodeAudioData_one_frame_Suc:
  "decodeAudioData [0, 0] 24000 (Suc 0) =
   Inr \<lparr>numberOfChannels = 1, frames = 1, sampleRate = 24000, channelData = [[0]]\<rparr>"
  using decodeAudioData_one_frame by simp










text \<open>
  Claim C6, as the code has it. No event moves the cursor back unless it may run the
  interrupted branch. Handling a message starts nothing; sources are started when a
  handler goes on after its \<open>await\<close>. From a state in which the cursor is at or above the
  clock reading of every waiting handler, as in any state where none waits, and after
  events none of which may run the interrupted branch, the handler that goes on next
  starts its source at the cursor, which is at or above what the clock read when that
  handler clamped it.
\<close>

theorem cursor_monotone:
  "(\<not> resets s e \<longrightarrow> nextStartTimeRef s \<le> nextStartTimeRef (step s e)) \<and>
   (suspended s = [] \<longrightarrow> clamped s) \<and>
   (clamped s \<and> quiet s es \<and> suspended (run s es) = k # ks \<and> decoded k = Inr b \<longrightarrow>
      starts_of (drop (length (trace (run s es))) (trace (step (run s es) Resume))) =
        [nextStartTimeRef (run s es)] \<and>
      clock_read k \<le> nextStartTimeRef (run s es)) \<and>
   starts_of (drop (length (trace s)) (trace (step s (Message now m)))) = []"
proof (intro conjI impI)
  assume "\<not> resets s e"
  then show "nextStartTimeRef s \<le> nextStartTimeRef (step s e)" by (rule step_cursor)
next
  assume "suspended s = []"
  then show "clamped s" by (simp add: clamped_def)
next
  assume h: "clamped s \<and> quiet s es \<and> suspended (run s es) = k # ks \<and> decoded k = Inr b"
  then have "clamped (run s es)" by (simp add: quiet_clamped)
  from resume_start [OF this] h
  show "starts_of (drop (length (trace (run s es))) (trace (step (run s es) Resume))) =
        [nextStartTimeRef (run s es)]"
    and "clock_read k \<le> nextStartTimeRef (run s es)"
    by simp_all
next
  show "starts_of (drop (length (trace s)) (trace (step s (Message now m)))) = []"
    by (rule message_starts_nothing)
qed

text \<open>A payload arriving at 5 in an open session, and its handler going on.\<close>

theorem cursor_monotone_witness:
  "nextStartTimeRef open_session \<le>
     nextStartTimeRef (step open_session (Message 5 (audio_chunk ''AAA=''))) \<and>
   starts_of (drop (length (trace (run open_session [Message 5 (audio_chunk ''AAA='')])))
     (trace (step (run open_session [Message 5 (audio_chunk ''AAA='')]) Resume))) = [5]"
proof -
  let ?m = "audio_chunk ''AAA=''"
  let ?b = "\<lparr>numberOfChannels = 1, frames = 1, sampleRate = 24000, channelData = [[0]]\<rparr>"
  let ?k = "\<lparr>clock_read = 5, decoded = Inr ?b, waiting = ?m\<rparr>"
  have waits: "suspended (run open_session [Message 5 ?m]) = ?k # []"
    and cur: "nextStartTimeRef (run open_session [Message 5 ?m]) = 5"
    by (simp_all add: session_defs open_session_eq idle_def decode_one_frame
          decodeAudioData_one_frame_Suc Let_def)
  have q: "\<not> resets open_session (Message 5 ?m)" "quiet open_session [Message 5 ?m]"
    by (simp_all add: audio_chunk_def silent_def)
  have c: "clamped open_session" by (simp add: clamped_def open_session_ready)
  have d: "decoded ?k = Inr ?b" by simp
  from cursor_monotone [of open_session "Message 5 ?m" "[Message 5 ?m]" ?k "[]" ?b] q c waits d
  show ?thesis
    by (simp add: cur del: step.simps)
qed

text \<open>
  A payload arrives at the clock reading 20 and, while its handler waits, an interruption
  is handled: the source is started at 0.
\<close>

theorem start_before_clock_counterexample:
  "starts_of (trace (run open_session
      [Message 20 (audio_chunk ''AAA=''), Message 20 interrupt_signal, Resume])) = [0] \<and>
   \<not> (20 :: real) \<le> 0"
  by (simp add: session_defs open_session_eq idle_def decode_one_frame decodeAudioData_one_frame_Suc
        duration_def Let_def)

section \<open>The inactivity check\<close>

lemma INACTIVITY_THRESHOLD_ms: "INACTIVITY_THRESHOLD = 86400000"
  by (simp add: INACTIVITY_THRESHOLD_def)

lemma checkInactivityAndNotify_cases:
  "checkInactivityAndNotify env =
     (if notification_permission env \<noteq> Granted then Inr []
      else case store env of
        Inl e \<Rightarrow> Inl e
      | Inr objects \<Rightarrow>
          (case objects ''lastInteraction'' of
             None \<Rightarrow> Inr []
           | Some ts \<Rightarrow>
               if ts \<noteq> 0 \<and> INACTIVITY_THRESHOLD < date_now env - ts then Inr [reminder]
               else Inr []))"
  by (simp add: checkInactivityAndNotify_def getTimestamp_def falsy_def
        split: sum.splits option.splits)

text \<open>
  Claim C10, as the code has it. On a tick tagged \<open>check-inactivity\<close> the reminder is shown
  exactly when the permission is granted, the store holds a timestamp other than 0 under
  \<open>lastInteraction\<close>, and the clock is more than 24 hours past it. In every other case
  nothing is shown, and nothing is raised unless the permission is granted and the read
  of the store fails, whose error is then the outcome. A tick with another tag does
  nothing.
\<close>

theorem inactivity_notification:
  "(periodicsync env ''check-inactivity'' = Inr [reminder] \<longleftrightarrow>
      notification_permission env = Granted \<and>
      (\<exists>objects ts. store env = Inr objects \<and> objects ''lastInteraction'' = Some ts \<and>
                    ts \<noteq> 0 \<and> 24 * 60 * 60 * 1000 < date_now env - ts)) \<and>
   (periodicsync env ''check-inactivity'' \<noteq> Inr [reminder] \<longrightarrow>
      periodicsync env ''check-inactivity'' = Inr [] \<or>
      (notification_permission env = Granted \<and>
       (\<exists>e. store env = Inl e \<and> periodicsync env ''check-inactivity'' = Inl e))) \<and>
   (t \<noteq> ''check-inactivity'' \<longrightarrow> periodicsync env t = Inr [])"
  by (auto simp: periodicsync_def checkInactivityAndNotify_cases INACTIVITY_THRESHOLD_ms
        split: sum.splits option.splits if_splits)

text \<open>A timestamp of 1 ms read a day and 1 ms later.\<close>

theorem inactivity_notification_witness:
  "periodicsync \<lparr>notification_permission = Granted,
                  store = Inr [''lastInteraction'' \<mapsto> 1],
                  date_now = 86400002\<rparr> ''check-inactivity'' = Inr [reminder]"
  using inactivity_notification
    [of "\<lparr>notification_permission = Granted, store = Inr [''lastInteraction'' \<mapsto> 1],
          date_now = 86400002\<rparr>"]
  by simp

text \<open>
  A stored timestamp of 0 exists and is more than a day old, but it is falsy: nothing is
  shown.
\<close>

theorem inactivity_zero_counterexample:
  "periodicsync \<lparr>notification_permission = Granted,
                  store = Inr [''lastInteraction'' \<mapsto> 0],
                  date_now = 86400001\<rparr> ''check-inactivity'' = Inr [] \<and>
   [''lastInteraction'' \<mapsto> (0::int)] ''lastInteraction'' = Some 0 \<and>
   (86400001::int) - 0 > 24 * 60 * 60 * 1000"
  by (simp add: periodicsync_def checkInactivityAndNotify_cases)

end
